theory Spec2Isabelle
  imports Main "HOL-Library.Sublist" "HOL-Library.AList" "HOL-Library.Word"
begin

section \<open>Python strings\<close>

text \<open>
  A Python \<^verbatim>\<open>str\<close> is modelled as a \<^typ>\<open>string\<close> whose characters are read as the code
  points 0 to 255.  The helpers below follow the built-in methods the two modules call
  (\<^verbatim>\<open>strip\<close>, \<^verbatim>\<open>lstrip\<close>, \<^verbatim>\<open>lower\<close>, \<^verbatim>\<open>split\<close>, \<^verbatim>\<open>partition\<close>, \<^verbatim>\<open>in\<close>,
  \<^verbatim>\<open>endswith\<close>, \<^verbatim>\<open>join\<close>) on that range.
\<close>

definition code_point :: "char \<Rightarrow> nat" where
  "code_point c = of_char c"

text \<open>\<^verbatim>\<open>str.isspace\<close> (also the class \<^verbatim>\<open>\s\<close> of \<^verbatim>\<open>re\<close> on str patterns) below 256.\<close>

definition py_isspace :: "char \<Rightarrow> bool" where
  "py_isspace c =
     (let n = code_point c
      in (9 \<le> n \<and> n \<le> 13) \<or> (28 \<le> n \<and> n \<le> 32) \<or> n = 133 \<or> n = 160)"

definition py_strip :: "string \<Rightarrow> string" where
  "py_strip s = rev (dropWhile py_isspace (rev (dropWhile py_isspace s)))"

definition py_lstrip :: "char \<Rightarrow> string \<Rightarrow> string" where
  "py_lstrip c s = dropWhile (\<lambda>x. x = c) s"

definition is_ascii_upper :: "char \<Rightarrow> bool" where
  "is_ascii_upper c = (65 \<le> code_point c \<and> code_point c \<le> 90)"

definition is_ascii_lower :: "char \<Rightarrow> bool" where
  "is_ascii_lower c = (97 \<le> code_point c \<and> code_point c \<le> 122)"

definition is_ascii_digit :: "char \<Rightarrow> bool" where
  "is_ascii_digit c = (48 \<le> code_point c \<and> code_point c \<le> 57)"

text \<open>
  \<^verbatim>\<open>str.lower\<close>: the ASCII capitals and the Latin-1 capitals (192 to 222 without the
  multiplication sign 215) move up by 32.
\<close>

definition lower_char :: "char \<Rightarrow> char" where
  "lower_char c =
     (let n = code_point c
      in if (65 \<le> n \<and> n \<le> 90) \<or> (192 \<le> n \<and> n \<le> 222 \<and> n \<noteq> 215)
         then char_of (n + 32) else c)"

definition py_lower :: "string \<Rightarrow> string" where
  "py_lower s = map lower_char s"

text \<open>\<^verbatim>\<open>sub in s\<close> for strings.\<close>

fun py_in :: "string \<Rightarrow> string \<Rightarrow> bool" where
  "py_in sub [] = (sub = [])"
| "py_in sub (c # cs) = (prefix sub (c # cs) \<or> py_in sub cs)"

definition py_endswith :: "string \<Rightarrow> string \<Rightarrow> bool" where
  "py_endswith s suf = suffix suf s"

text \<open>\<^verbatim>\<open>s.split(c)\<close> for a separator of one character: never the empty list.\<close>

fun py_split :: "char \<Rightarrow> string \<Rightarrow> string list" where
  "py_split c [] = [[]]"
| "py_split c (x # xs) =
     (if x = c then [] # py_split c xs
      else (case py_split c xs of
              [] \<Rightarrow> [[x]]
            | seg # segs \<Rightarrow> (x # seg) # segs))"

text \<open>
  \<^verbatim>\<open>s.partition(c)\<close> as (head, found, tail); \<^verbatim>\<open>s.rpartition(c)\<close> keeps the text after the
  last separator (the whole string when there is none).
\<close>

definition py_partition :: "char \<Rightarrow> string \<Rightarrow> string \<times> bool \<times> string" where
  "py_partition c s =
     (takeWhile (\<lambda>x. x \<noteq> c) s,
      dropWhile (\<lambda>x. x \<noteq> c) s \<noteq> [],
      drop 1 (dropWhile (\<lambda>x. x \<noteq> c) s))"

definition py_rpartition_tail :: "char \<Rightarrow> string \<Rightarrow> string" where
  "py_rpartition_tail c s = rev (takeWhile (\<lambda>x. x \<noteq> c) (rev s))"

fun py_join :: "string \<Rightarrow> string list \<Rightarrow> string" where
  "py_join sep [] = []"
| "py_join sep [x] = x"
| "py_join sep (x # y # ys) = x @ sep @ py_join sep (y # ys)"

definition dquote :: char where
  "dquote = CHR 0x22"

section \<open>auth.py\<close>

subsection \<open>Data\<close>

text \<open>
  One entry of the \<^verbatim>\<open>cookies\<close> array of the storage state.  Each key may be missing
  (\<^verbatim>\<open>cookie.get\<close> then gives its default); a key that is present holds a string.
\<close>

record cookie =
  c_domain :: "string option"
  c_name :: "string option"
  c_value :: "string option"

text \<open>The parsed storage state: the \<^verbatim>\<open>cookies\<close> key may be missing.\<close>

record storage_state =
  ss_cookies :: "cookie list option"

text \<open>
  The exceptions of the module.  All but the first and the last two are raised as
  \<^verbatim>\<open>ValueError\<close> and differ in their message:
  \<^item> \<open>MissingCookies\<close>: "Missing required cookies ..." (both loaders);
  \<^item> \<open>AuthenticationExpired\<close>: "Authentication expired or invalid. ...";
  \<^item> \<open>CsrfTokenNotFound\<close>: "CSRF token not found in HTML. Final URL: ...";
  \<^item> \<open>SessionIdNotFound\<close>: "Session ID not found in HTML. Final URL: ...".
  \<open>HTTPStatusError\<close> is what \<^verbatim>\<open>response.raise_for_status()\<close> raises, \<open>RequestError\<close>
  what the request itself raises.
\<close>

datatype auth_error =
    FileNotFoundError string
  | JSONDecodeError
  | MissingCookies "string set"
  | AuthenticationExpired
  | CsrfTokenNotFound string
  | SessionIdNotFound string
  | HTTPStatusError nat
  | RequestError string

definition MINIMUM_REQUIRED_COOKIES :: "string set" where
  "MINIMUM_REQUIRED_COOKIES = {''SID''}"

definition ALLOWED_COOKIE_DOMAINS :: "string set" where
  "ALLOWED_COOKIE_DOMAINS =
     {''.google.com'', ''notebooklm.google.com'', ''.googleusercontent.com''}"

text \<open>\<^verbatim>\<open>d.get(key, "")\<close> on a key that holds a string when present.\<close>

definition get_or_empty :: "string option \<Rightarrow> string" where
  "get_or_empty v = (case v of None \<Rightarrow> [] | Some s \<Rightarrow> s)"

text \<open>\<^verbatim>\<open>storage_state.get("cookies", [])\<close>.\<close>

definition get_cookies :: "storage_state \<Rightarrow> cookie list" where
  "get_cookies st = (case ss_cookies st of None \<Rightarrow> [] | Some l \<Rightarrow> l)"

subsection \<open>extract\_cookies\_from\_storage\<close>

text \<open>
  The loop over the cookie list.  The dict \<^verbatim>\<open>cookies\<close> is an association list in
  insertion order; \<^verbatim>\<open>cookies[name] = v\<close> is \<^const>\<open>AList.update\<close> (a key already there
  keeps its place and takes the new value).
\<close>

fun extract_loop :: "cookie list \<Rightarrow> (string \<times> string) list \<Rightarrow> (string \<times> string) list" where
  "extract_loop [] cookies = cookies"
| "extract_loop (c # cs) cookies =
     (let domain = get_or_empty (c_domain c)
      in if domain \<in> ALLOWED_COOKIE_DOMAINS
         then (case c_name c of
                 None \<Rightarrow> extract_loop cs cookies
               | Some name \<Rightarrow>
                   if name \<noteq> []
                   then extract_loop cs (AList.update name (get_or_empty (c_value c)) cookies)
                   else extract_loop cs cookies)
         else extract_loop cs cookies)"

definition extract_cookies_from_storage ::
  "storage_state \<Rightarrow> auth_error + (string \<times> string) list" where
  "extract_cookies_from_storage st =
     (let cookies = extract_loop (get_cookies st) [];
          missing = MINIMUM_REQUIRED_COOKIES - set (map fst cookies)
      in if missing \<noteq> {} then Inl (MissingCookies missing) else Inr cookies)"

subsection \<open>Token extraction\<close>

text \<open>
  \<^verbatim>\<open>re.search(r'"KEY"\s*:\s*"([^"]+)"', html)\<close>.  \<open>match_token_at key s\<close> is the match
  attempt at the start of \<open>s\<close>, \<open>key\<close> being the quoted key; it gives group 1.  The
  pattern leaves the matcher no choice: each \<^verbatim>\<open>\s*\<close> is followed by a character that is
  not white space, and \<^verbatim>\<open>[^"]+\<close> by a double quote, so each run is taken whole.
  \<open>re_search_token\<close> tries the positions from left to right.
\<close>

definition match_token_at :: "string \<Rightarrow> string \<Rightarrow> string option" where
  "match_token_at key s =
     (if prefix key s
      then (case dropWhile py_isspace (drop (length key) s) of
              [] \<Rightarrow> None
            | c # r2 \<Rightarrow>
                if c = CHR '':''
                then (case dropWhile py_isspace r2 of
                        [] \<Rightarrow> None
                      | q # r3 \<Rightarrow>
                          if q = dquote
                          then (let g = takeWhile (\<lambda>x. x \<noteq> dquote) r3
                                in if g \<noteq> [] \<and> dropWhile (\<lambda>x. x \<noteq> dquote) r3 \<noteq> []
                                   then Some g else None)
                          else None)
                else None)
      else None)"

fun re_search_token :: "string \<Rightarrow> string \<Rightarrow> string option" where
  "re_search_token key [] = match_token_at key []"
| "re_search_token key (c # cs) =
     (case match_token_at key (c # cs) of
        Some g \<Rightarrow> Some g
      | None \<Rightarrow> re_search_token key cs)"

definition quoted :: "string \<Rightarrow> string" where
  "quoted k = dquote # k @ [dquote]"

definition extract_csrf_from_html :: "string \<Rightarrow> string \<Rightarrow> auth_error + string" where
  "extract_csrf_from_html html final_url =
     (case re_search_token (quoted ''SNlM0e'') html of
        None \<Rightarrow>
          if py_in ''accounts.google.com'' final_url \<or> py_in ''accounts.google.com'' html
          then Inl AuthenticationExpired
          else Inl (CsrfTokenNotFound final_url)
      | Some g \<Rightarrow> Inr g)"

definition extract_session_id_from_html :: "string \<Rightarrow> string \<Rightarrow> auth_error + string" where
  "extract_session_id_from_html html final_url =
     (case re_search_token (quoted ''FdrFJe'') html of
        None \<Rightarrow>
          if py_in ''accounts.google.com'' final_url \<or> py_in ''accounts.google.com'' html
          then Inl AuthenticationExpired
          else Inl (SessionIdNotFound final_url)
      | Some g \<Rightarrow> Inr g)"

subsection \<open>Loading the cookies\<close>

text \<open>
  What \<^verbatim>\<open>storage_path\<close> holds: nothing (\<^verbatim>\<open>exists()\<close> is false), text that \<^verbatim>\<open>json.loads\<close>
  rejects, or a JSON object.
\<close>

datatype storage_file = NoFile | NotJson | Json storage_state

text \<open>
  The reply to \<^verbatim>\<open>client.get\<close> with \<^verbatim>\<open>follow_redirects=True\<close>: the status of the last
  response, its URL (\<^verbatim>\<open>str(response.url)\<close>) and its body.
\<close>

record http_response =
  r_status_code :: nat
  r_url :: string
  r_text :: string

text \<open>
  The world \<^verbatim>\<open>auth.py\<close> reads: the files, the default path, and the service's answer to
  the GET of the landing page as a function of the \<^verbatim>\<open>Cookie\<close> header sent (\<open>Inl\<close>: the
  request raised).
\<close>

record auth_env =
  storage_files :: "string \<Rightarrow> storage_file"
  DEFAULT_STORAGE_PATH :: string
  landing_page :: "string \<Rightarrow> string + http_response"

definition load_auth_from_storage ::
  "auth_env \<Rightarrow> string option \<Rightarrow> auth_error + (string \<times> string) list" where
  "load_auth_from_storage env path =
     (let storage_path = (case path of None \<Rightarrow> DEFAULT_STORAGE_PATH env | Some p \<Rightarrow> p)
      in case storage_files env storage_path of
           NoFile \<Rightarrow> Inl (FileNotFoundError storage_path)
         | NotJson \<Rightarrow> Inl JSONDecodeError
         | Json storage_state \<Rightarrow> extract_cookies_from_storage storage_state)"

definition allowed_suffixes :: "string list" where
  "allowed_suffixes = [''.google.com'', ''.googleusercontent.com'', ''.usercontent.google.com'']"

fun suffix_loop :: "string \<Rightarrow> string list \<Rightarrow> bool" where
  "suffix_loop domain [] = False"
| "suffix_loop domain (sfx # rest) =
     (if domain = sfx \<or> py_endswith domain sfx then True else suffix_loop domain rest)"

definition is_allowed_cookie_domain :: "string \<Rightarrow> bool" where
  "is_allowed_cookie_domain domain =
     (if domain \<in> ALLOWED_COOKIE_DOMAINS then True
      else suffix_loop domain allowed_suffixes)"

text \<open>
  \<^verbatim>\<open>httpx.Cookies\<close>: the jar keeps one cookie per domain, path and name, and
  \<^verbatim>\<open>cookies.set(name, value, domain=domain)\<close> always uses the path \<^verbatim>\<open>/\<close>, so the jar is an
  association list from (domain, name) to the value.
\<close>

type_synonym cookie_jar = "((string \<times> string) \<times> string) list"

fun httpx_loop :: "cookie list \<Rightarrow> cookie_jar \<times> string set \<Rightarrow> cookie_jar \<times> string set" where
  "httpx_loop [] (cookies, cookie_names) = (cookies, cookie_names)"
| "httpx_loop (c # cs) (cookies, cookie_names) =
     (let domain = get_or_empty (c_domain c);
          name = get_or_empty (c_name c);
          val = get_or_empty (c_value c)
      in if is_allowed_cookie_domain domain \<and> name \<noteq> [] \<and> val \<noteq> []
         then httpx_loop cs (AList.update (domain, name) val cookies, insert name cookie_names)
         else httpx_loop cs (cookies, cookie_names))"

text \<open>The part of \<^verbatim>\<open>load_httpx_cookies\<close> after the file is parsed.\<close>

definition httpx_cookies_of :: "storage_state \<Rightarrow> auth_error + cookie_jar" where
  "httpx_cookies_of st =
     (let (cookies, cookie_names) =
            httpx_loop (get_cookies st) ([], {});
          missing = MINIMUM_REQUIRED_COOKIES - cookie_names
      in if missing \<noteq> {} then Inl (MissingCookies missing) else Inr cookies)"

definition load_httpx_cookies :: "auth_env \<Rightarrow> string option \<Rightarrow> auth_error + cookie_jar" where
  "load_httpx_cookies env path =
     (let storage_path = (case path of None \<Rightarrow> DEFAULT_STORAGE_PATH env | Some p \<Rightarrow> p)
      in case storage_files env storage_path of
           NoFile \<Rightarrow> Inl (FileNotFoundError storage_path)
         | NotJson \<Rightarrow> Inl JSONDecodeError
         | Json storage_state \<Rightarrow> httpx_cookies_of storage_state)"

subsection \<open>fetch\_tokens and AuthTokens.from\_storage\<close>

definition cookie_header_of :: "(string \<times> string) list \<Rightarrow> string" where
  "cookie_header_of cookies = py_join ''; '' (map (\<lambda>(k, v). k @ ''='' @ v) cookies)"

text \<open>\<^verbatim>\<open>response.raise_for_status()\<close> of httpx raises unless the status is 2xx.\<close>

definition is_success :: "http_response \<Rightarrow> bool" where
  "is_success response = (200 \<le> r_status_code response \<and> r_status_code response \<le> 299)"

definition fetch_tokens ::
  "auth_env \<Rightarrow> (string \<times> string) list \<Rightarrow> auth_error + string \<times> string" where
  "fetch_tokens env cookies =
     (let cookie_header = cookie_header_of cookies
      in case landing_page env cookie_header of
           Inl msg \<Rightarrow> Inl (RequestError msg)
         | Inr response \<Rightarrow>
             if \<not> is_success response then Inl (HTTPStatusError (r_status_code response))
             else (let final_url = r_url response
                   in if py_in ''accounts.google.com'' final_url then Inl AuthenticationExpired
                      else (case extract_csrf_from_html (r_text response) final_url of
                              Inl e \<Rightarrow> Inl e
                            | Inr csrf \<Rightarrow>
                                (case extract_session_id_from_html (r_text response) final_url of
                                   Inl e \<Rightarrow> Inl e
                                 | Inr session_id \<Rightarrow> Inr (csrf, session_id)))))"

record AuthTokens =
  cookies :: "(string \<times> string) list"
  csrf_token :: string
  session_id :: string

definition from_storage :: "auth_env \<Rightarrow> string option \<Rightarrow> auth_error + AuthTokens" where
  "from_storage env path =
     (case load_auth_from_storage env path of
        Inl e \<Rightarrow> Inl e
      | Inr cks \<Rightarrow>
          (case fetch_tokens env cks of
             Inl e \<Rightarrow> Inl e
           | Inr (csrf, sid) \<Rightarrow>
               Inr \<lparr>cookies = cks, csrf_token = csrf, session_id = sid\<rparr>))"

section \<open>\_sources.py\<close>

subsection \<open>Loosely typed values\<close>

text \<open>
  What the remote-call boundary takes and returns: decoded JSON (\<^verbatim>\<open>Any\<close> in the source).
\<close>

datatype pyval =
    PNone
  | PBool bool
  | PInt int
  | PStr string
  | PList "pyval list"
  | PDict "(string \<times> pyval) list"

text \<open>\<^verbatim>\<open>bool(x)\<close> and \<^verbatim>\<open>isinstance(x, list)\<close>.\<close>

fun truthy :: "pyval \<Rightarrow> bool" where
  "truthy PNone = False"
| "truthy (PBool b) = b"
| "truthy (PInt i) = (i \<noteq> 0)"
| "truthy (PStr s) = (s \<noteq> [])"
| "truthy (PList l) = (l \<noteq> [])"
| "truthy (PDict d) = (d \<noteq> [])"

fun is_list :: "pyval \<Rightarrow> bool" where
  "is_list (PList l) = True"
| "is_list _ = False"

text \<open>
  The local function \<^verbatim>\<open>extract_id\<close> of \<^verbatim>\<open>_register_file_source\<close>: the first test is
  \<^verbatim>\<open>isinstance(data, str)\<close>, the second \<^verbatim>\<open>isinstance(data, list) and len(data) > 0\<close>.
\<close>

fun extract_id :: "pyval \<Rightarrow> string option" where
  "extract_id (PStr s) = Some s"
| "extract_id (PList (x # xs)) = extract_id x"
| "extract_id _ = None"

subsection \<open>Strings that went through percent-decoding\<close>

text \<open>
  Percent-decoding can produce any code point, so the strings that come out of it are
  lists of code points; \<open>ustr\<close> reads a string of the other kind as one of these.
  \<^verbatim>\<open>str.isspace\<close> and \<^verbatim>\<open>str.strip()\<close> on all code points.
\<close>

type_synonym ustring = "nat list"

definition ustr :: "string \<Rightarrow> ustring" where
  "ustr s = map code_point s"

definition u_isspace :: "nat \<Rightarrow> bool" where
  "u_isspace n =
     ((9 \<le> n \<and> n \<le> 13) \<or> (28 \<le> n \<and> n \<le> 32) \<or> n = 133 \<or> n = 160
      \<or> n = 0x1680 \<or> (0x2000 \<le> n \<and> n \<le> 0x200A)
      \<or> n = 0x2028 \<or> n = 0x2029 \<or> n = 0x202F \<or> n = 0x205F \<or> n = 0x3000)"

definition u_strip :: "ustring \<Rightarrow> ustring" where
  "u_strip s = rev (dropWhile u_isspace (rev (dropWhile u_isspace s)))"

subsection \<open>urllib.parse\<close>

text \<open>
  \<^verbatim>\<open>urlparse\<close>, the property \<^verbatim>\<open>hostname\<close>, \<^verbatim>\<open>parse_qs\<close> and \<^verbatim>\<open>unquote\<close> as in CPython 3.11
  (3.11.10), on strings of code points below 256.  On these \<^verbatim>\<open>_checknetloc\<close> never
  raises: no such code point is normalised (NFKC) to text that holds one of
  \<^verbatim>\<open>/ ? # @ :\<close>.  The only exception is \<^verbatim>\<open>ValueError\<close>.
\<close>

datatype py_exc = AttributeError | TypeError | ValueError | OtherException

record parse_result =
  u_scheme :: string
  u_netloc :: string
  u_path :: string
  u_params :: string
  u_query :: string
  u_fragment :: string

definition is_ascii_alpha :: "char \<Rightarrow> bool" where
  "is_ascii_alpha c = (is_ascii_lower c \<or> is_ascii_upper c)"

definition is_scheme_char :: "char \<Rightarrow> bool" where
  "is_scheme_char c =
     (is_ascii_lower c \<or> is_ascii_upper c \<or> is_ascii_digit c
      \<or> c = CHR ''+'' \<or> c = CHR ''-'' \<or> c = CHR ''.'')"

text \<open>
  \<^verbatim>\<open>i = url.find(':')\<close>; if \<^verbatim>\<open>i > 0\<close>, the first character is an ASCII letter and every
  character in front of the colon is a scheme character, the scheme is split off and
  lowered.
\<close>

definition split_scheme :: "string \<Rightarrow> string \<times> string" where
  "split_scheme url =
     (let scheme_part = takeWhile (\<lambda>c. c \<noteq> CHR '':'') url;
          from_colon = dropWhile (\<lambda>c. c \<noteq> CHR '':'') url
      in if from_colon \<noteq> [] \<and> scheme_part \<noteq> [] \<and> is_ascii_alpha (hd scheme_part)
            \<and> list_all is_scheme_char scheme_part
         then (py_lower scheme_part, drop 1 from_colon)
         else ([], url))"

text \<open>\<^verbatim>\<open>_splitnetloc(url, 2)\<close>: the netloc runs to the first of \<^verbatim>\<open>/ ? #\<close>.\<close>

definition is_netloc_delim :: "char \<Rightarrow> bool" where
  "is_netloc_delim c = (c = CHR ''/'' \<or> c = CHR ''?'' \<or> c = CHR ''#'')"

definition splitnetloc :: "string \<Rightarrow> string \<times> string" where
  "splitnetloc url =
     (takeWhile (\<lambda>c. \<not> is_netloc_delim c) (drop 2 url),
      dropWhile (\<lambda>c. \<not> is_netloc_delim c) (drop 2 url))"

definition is_hex_digit :: "char \<Rightarrow> bool" where
  "is_hex_digit c =
     (is_ascii_digit c \<or> (97 \<le> code_point c \<and> code_point c \<le> 102)
      \<or> (65 \<le> code_point c \<and> code_point c \<le> 70))"

definition hex_value :: "char \<Rightarrow> nat" where
  "hex_value c =
     (if is_ascii_digit c then code_point c - 48
      else if 97 \<le> code_point c then code_point c - 87
      else code_point c - 55)"

text \<open>
  \<^verbatim>\<open>ipaddress\<close>: whether \<^verbatim>\<open>IPv4Address(s)\<close> and \<^verbatim>\<open>IPv6Address(s)\<close> accept a string.  An
  octet is one to three decimal digits without a leading zero, at most 255.  An IPv6
  address may end with a scope (\<^verbatim>\<open>%\<close> and a text without \<^verbatim>\<open>%\<close> that is not empty); its
  last group may be an IPv4 address, which is replaced by two groups of hexadecimal
  digits (written \<^verbatim>\<open>0\<close> here: only their form counts); \<open>skips\<close> are the places of an
  empty group other than the first and the last, that is of \<^verbatim>\<open>::\<close>.
\<close>

definition dec_value :: "string \<Rightarrow> nat" where
  "dec_value s = foldl (\<lambda>v c. v * 10 + (code_point c - 48)) 0 s"

definition parse_octet :: "string \<Rightarrow> bool" where
  "parse_octet octet_str =
     (octet_str \<noteq> [] \<and> list_all is_ascii_digit octet_str \<and> length octet_str \<le> 3
      \<and> \<not> (octet_str \<noteq> ''0'' \<and> hd octet_str = CHR ''0'')
      \<and> dec_value octet_str \<le> 255)"

definition IPv4Address :: "string \<Rightarrow> bool" where
  "IPv4Address addr_str =
     (CHR ''/'' \<notin> set addr_str \<and> addr_str \<noteq> []
      \<and> length (py_split (CHR ''.'') addr_str) = 4
      \<and> list_all parse_octet (py_split (CHR ''.'') addr_str))"

definition parse_hextet :: "string \<Rightarrow> bool" where
  "parse_hextet hextet_str =
     (list_all is_hex_digit hextet_str \<and> length hextet_str \<le> 4 \<and> hextet_str \<noteq> [])"

definition ip_int_from_string :: "string \<Rightarrow> bool" where
  "ip_int_from_string ip_str =
     (let parts0 = py_split (CHR '':'') ip_str
      in if ip_str = [] \<or> length parts0 < 3 then False
         else if CHR ''.'' \<in> set (last parts0) \<and> \<not> IPv4Address (last parts0) then False
         else
           (let parts = (if CHR ''.'' \<in> set (last parts0) then butlast parts0 @ [''0'', ''0'']
                         else parts0);
                skips = filter (\<lambda>i. parts ! i = []) [1..<length parts - 1]
            in if length parts > 9 then False
               else (case skips of
                       [] \<Rightarrow>
                         length parts = 8 \<and> hd parts \<noteq> [] \<and> last parts \<noteq> []
                         \<and> list_all parse_hextet parts
                     | [skip_index] \<Rightarrow>
                         (let parts_hi = (if hd parts = [] then skip_index - 1 else skip_index);
                              parts_lo = (if last parts = []
                                          then length parts - skip_index - 1 - 1
                                          else length parts - skip_index - 1)
                          in \<not> (hd parts = [] \<and> parts_hi \<noteq> 0)
                             \<and> \<not> (last parts = [] \<and> parts_lo \<noteq> 0)
                             \<and> parts_hi + parts_lo < 8
                             \<and> list_all parse_hextet (take parts_hi parts)
                             \<and> list_all parse_hextet (drop (length parts - parts_lo) parts))
                     | _ \<Rightarrow> False)))"

definition IPv6Address :: "string \<Rightarrow> bool" where
  "IPv6Address addr_str =
     (let (addr, sep, scope_id) = py_partition (CHR ''%'') addr_str
      in CHR ''/'' \<notin> set addr_str
         \<and> \<not> (sep \<and> (scope_id = [] \<or> CHR ''%'' \<in> set scope_id))
         \<and> ip_int_from_string addr)"

text \<open>
  \<^verbatim>\<open>_check_bracketed_host\<close>, true when it returns and false when it raises
  \<^verbatim>\<open>ValueError\<close>.  A host that starts with \<^verbatim>\<open>v\<close> has to match
  \<^verbatim>\<open>\Av[a-fA-F0-9]+\..+\Z\<close> (the dot of a pattern matches no line feed); any other has to
  be an IPv6 address (\<^verbatim>\<open>ip_address\<close> tries IPv4 first, and an IPv4 address is refused
  between brackets).
\<close>

definition ipvfuture :: "string \<Rightarrow> bool" where
  "ipvfuture hostname =
     (let digits = takeWhile is_hex_digit (drop 1 hostname);
          rest = dropWhile is_hex_digit (drop 1 hostname)
      in digits \<noteq> [] \<and> take 1 rest = ''.'' \<and> drop 1 rest \<noteq> []
         \<and> CHR 0x0A \<notin> set (drop 1 rest))"

definition check_bracketed_host :: "string \<Rightarrow> bool" where
  "check_bracketed_host hostname =
     (if take 1 hostname = ''v'' then ipvfuture hostname
      else \<not> IPv4Address hostname \<and> IPv6Address hostname)"

text \<open>
  \<^verbatim>\<open>urlsplit\<close>: leading characters up to the space are dropped, tabs, carriage returns and
  line feeds are removed everywhere, then scheme, netloc, fragment and query are split
  off in this order.
\<close>

definition urlsplit :: "string \<Rightarrow> py_exc + (string \<times> string \<times> string \<times> string \<times> string)" where
  "urlsplit url0 =
     (let url1 = dropWhile (\<lambda>c. code_point c \<le> 32) url0;
          url2 = filter (\<lambda>c. code_point c \<noteq> 9 \<and> code_point c \<noteq> 10 \<and> code_point c \<noteq> 13) url1;
          (scheme, url3) = split_scheme url2;
          (netloc, url4) = (if take 2 url3 = ''//'' then splitnetloc url3 else ([], url3));
          bracketed_host =
            fst (py_partition (CHR '']'') (snd (snd (py_partition (CHR ''['') netloc))))
      in if (CHR ''['' \<in> set netloc \<and> CHR '']'' \<notin> set netloc)
            \<or> (CHR '']'' \<in> set netloc \<and> CHR ''['' \<notin> set netloc)
         then Inl ValueError
         else if CHR ''['' \<in> set netloc \<and> CHR '']'' \<in> set netloc
                 \<and> \<not> check_bracketed_host bracketed_host
         then Inl ValueError
         else (let (url5, has_fragment, fragment) = py_partition (CHR ''#'') url4;
                   (url6, has_query, query) = py_partition (CHR ''?'') url5
               in Inr (scheme, netloc, url6, query, fragment)))"

definition uses_params :: "string list" where
  "uses_params = [[], ''ftp'', ''hdl'', ''prospero'', ''http'', ''imap'', ''https'', ''shttp'',
     ''rtsp'', ''rtsps'', ''rtspu'', ''sip'', ''sips'', ''mms'', ''sftp'', ''tel'']"

text \<open>
  \<^verbatim>\<open>_splitparams\<close>: the parameters start at the first \<^verbatim>\<open>;\<close> of the last path segment.
\<close>

definition splitparams :: "string \<Rightarrow> string \<times> string" where
  "splitparams url =
     (let last_seg = py_rpartition_tail (CHR ''/'') url;
          front = take (length url - length last_seg) url;
          (seg, found, params) = py_partition (CHR '';'') last_seg
      in (front @ seg, params))"

definition urlparse :: "string \<Rightarrow> py_exc + parse_result" where
  "urlparse url =
     (case urlsplit url of
        Inl e \<Rightarrow> Inl e
      | Inr (scheme, netloc, path, query, fragment) \<Rightarrow>
          (let (path', params) =
                 (if scheme \<in> set uses_params \<and> CHR '';'' \<in> set path
                  then splitparams path else (path, []))
           in Inr \<lparr>u_scheme = scheme, u_netloc = netloc, u_path = path', u_params = params,
                   u_query = query, u_fragment = fragment\<rparr>))"

text \<open>
  The property \<^verbatim>\<open>hostname\<close>: the text after the last \<^verbatim>\<open>@\<close>, then what stands between
  brackets or in front of the first colon; \<^verbatim>\<open>None\<close> when that is empty, otherwise lowered up
  to a \<^verbatim>\<open>%\<close>.
\<close>

definition hostname_of :: "parse_result \<Rightarrow> string option" where
  "hostname_of parsed =
     (let hostinfo = py_rpartition_tail (CHR ''@'') (u_netloc parsed);
          (pre_br, have_open_br, bracketed) = py_partition (CHR ''['') hostinfo;
          hostname = (if have_open_br then fst (py_partition (CHR '']'') bracketed)
                      else fst (py_partition (CHR '':'') hostinfo))
      in if hostname = [] then None
         else (let (h, percent, zone) = py_partition (CHR ''%'') hostname
               in Some (py_lower h @ (if percent then ''%'' else []) @ zone)))"

text \<open>
  \<^verbatim>\<open>unquote_to_bytes\<close> on a run of ASCII characters: \<^verbatim>\<open>%\<close> and two hexadecimal digits
  give the byte of that value, every other character its own byte.
\<close>

fun unquote_to_bytes :: "string \<Rightarrow> nat list" where
  "unquote_to_bytes (p # a # b # rest) =
     (if p = CHR ''%'' \<and> is_hex_digit a \<and> is_hex_digit b
      then (hex_value a * 16 + hex_value b) # unquote_to_bytes rest
      else code_point p # unquote_to_bytes (a # b # rest))"
| "unquote_to_bytes (p # rest) = code_point p # unquote_to_bytes rest"
| "unquote_to_bytes [] = []"

text \<open>
  \<^verbatim>\<open>bytes.decode('utf-8', 'replace')\<close>.  A well-formed sequence gives its code point; a
  byte that cannot start a sequence, and the longest start of a sequence that its next
  byte does not continue, give U+FFFD, and decoding goes on at that next byte.
\<close>

definition is_cont :: "nat \<Rightarrow> bool" where
  "is_cont c = (0x80 \<le> c \<and> c \<le> 0xBF)"

text \<open>The second byte a first byte allows (no overlong form, no surrogate, at most U+10FFFF).\<close>

definition second_ok :: "nat \<Rightarrow> nat \<Rightarrow> bool" where
  "second_ok b c =
     (if b = 0xE0 then 0xA0 \<le> c \<and> c \<le> 0xBF
      else if b = 0xED then 0x80 \<le> c \<and> c \<le> 0x9F
      else if b = 0xF0 then 0x90 \<le> c \<and> c \<le> 0xBF
      else if b = 0xF4 then 0x80 \<le> c \<and> c \<le> 0x8F
      else is_cont c)"

fun utf8_decode :: "nat list \<Rightarrow> ustring" where
  "utf8_decode [] = []"
| "utf8_decode (b # r) =
     (if b < 0x80 then b # utf8_decode r
      else if 0xC2 \<le> b \<and> b \<le> 0xDF then
        (case r of
           [] \<Rightarrow> [0xFFFD]
         | c1 # r1 \<Rightarrow>
             if \<not> is_cont c1 then 0xFFFD # utf8_decode r
             else ((b - 0xC0) * 64 + (c1 - 0x80)) # utf8_decode r1)
      else if 0xE0 \<le> b \<and> b \<le> 0xEF then
        (case r of
           [] \<Rightarrow> [0xFFFD]
         | c1 # r1 \<Rightarrow>
             if \<not> second_ok b c1 then 0xFFFD # utf8_decode r
             else (case r1 of
                     [] \<Rightarrow> [0xFFFD]
                   | c2 # r2 \<Rightarrow>
                       if \<not> is_cont c2 then 0xFFFD # utf8_decode r1
                       else ((b - 0xE0) * 4096 + (c1 - 0x80) * 64 + (c2 - 0x80))
                            # utf8_decode r2))
      else if 0xF0 \<le> b \<and> b \<le> 0xF4 then
        (case r of
           [] \<Rightarrow> [0xFFFD]
         | c1 # r1 \<Rightarrow>
             if \<not> second_ok b c1 then 0xFFFD # utf8_decode r
             else (case r1 of
                     [] \<Rightarrow> [0xFFFD]
                   | c2 # r2 \<Rightarrow>
                       if \<not> is_cont c2 then 0xFFFD # utf8_decode r1
                       else (case r2 of
                               [] \<Rightarrow> [0xFFFD]
                             | c3 # r3 \<Rightarrow>
                                 if \<not> is_cont c3 then 0xFFFD # utf8_decode r2
                                 else ((b - 0xF0) * 262144 + (c1 - 0x80) * 4096
                                       + (c2 - 0x80) * 64 + (c3 - 0x80))
                                      # utf8_decode r3)))
      else 0xFFFD # utf8_decode r)"

text \<open>
  \<^verbatim>\<open>unquote\<close>: a string without \<^verbatim>\<open>%\<close> is returned as it is; otherwise each run of ASCII
  characters is turned into bytes and decoded, and the characters between the runs are
  kept.
\<close>

definition is_ascii :: "char \<Rightarrow> bool" where
  "is_ascii c = (code_point c < 128)"

function unquote_bits :: "string \<Rightarrow> ustring" where
  "unquote_bits s =
     (if s = [] then []
      else (let run = takeWhile is_ascii s;
                rest = dropWhile is_ascii s;
                other = takeWhile (\<lambda>c. \<not> is_ascii c) rest;
                rest' = dropWhile (\<lambda>c. \<not> is_ascii c) rest
            in utf8_decode (unquote_to_bytes run) @ ustr other @ unquote_bits rest'))"
  by pat_completeness auto
termination
proof (relation "measure length")
  show "wf (measure length)"
    by simp
next
  fix s :: string and run rest other rest'
  assume s: "s \<noteq> []" and rest: "rest = dropWhile is_ascii s"
    and rest': "rest' = dropWhile (\<lambda>c. \<not> is_ascii c) rest"
  have le: "length (dropWhile P (dropWhile Q xs)) \<le> length xs" for P Q and xs :: string
    by (rule le_trans [OF length_dropWhile_le length_dropWhile_le])
  from s obtain a list where c: "s = a # list"
    by (cases s) auto
  have "length rest' < length s"
  proof (cases "is_ascii a")
    case True
    then have "rest' = dropWhile (\<lambda>c. \<not> is_ascii c) (dropWhile is_ascii list)"
      using rest rest' c by simp
    with le [of "\<lambda>c. \<not> is_ascii c" is_ascii list] c show ?thesis
      by simp
  next
    case False
    then have "rest' = dropWhile (\<lambda>c. \<not> is_ascii c) list"
      using rest rest' c by simp
    with length_dropWhile_le [of "\<lambda>c. \<not> is_ascii c" list] c show ?thesis
      by simp
  qed
  then show "(rest', s) \<in> measure length"
    by simp
qed

declare unquote_bits.simps [simp del]

definition unquote :: "string \<Rightarrow> ustring" where
  "unquote s = (if CHR ''%'' \<notin> set s then ustr s else unquote_bits s)"

definition plus_to_space :: "string \<Rightarrow> string" where
  "plus_to_space s = map (\<lambda>c. if c = CHR ''+'' then CHR '' '' else c) s"

text \<open>
  \<^verbatim>\<open>parse_qsl\<close> with its defaults: fields are separated by \<^verbatim>\<open>&\<close>; an empty field and a
  field with an empty value (or without \<^verbatim>\<open>=\<close>) are skipped.
\<close>

definition parse_field :: "string \<Rightarrow> (ustring \<times> ustring) list" where
  "parse_field name_value =
     (let (name, has_eq, val) = py_partition (CHR ''='') name_value
      in if name_value = [] \<or> val = [] then []
         else [(unquote (plus_to_space name), unquote (plus_to_space val))])"

definition parse_qsl :: "string \<Rightarrow> (ustring \<times> ustring) list" where
  "parse_qsl qs = (if qs = [] then [] else concat (map parse_field (py_split (CHR ''&'') qs)))"

text \<open>\<^verbatim>\<open>parse_qs(query).get(key, [])\<close>: the values of the fields of that name, in order.\<close>

definition parse_qs_get :: "string \<Rightarrow> ustring \<Rightarrow> ustring list" where
  "parse_qs_get qs key = map snd (filter (\<lambda>nv. fst nv = key) (parse_qsl qs))"

subsection \<open>Recognising a YouTube URL\<close>

definition youtube_domains :: "string set" where
  "youtube_domains =
     {''youtube.com'', ''www.youtube.com'', ''m.youtube.com'', ''music.youtube.com'', ''youtu.be''}"

definition path_prefixes :: "string list" where
  "path_prefixes = [''shorts'', ''embed'', ''live'', ''v'']"

text \<open>
  \<^verbatim>\<open>_extract_video_id_from_parsed_url\<close>.  \<^verbatim>\<open>path.split("/")[0]\<close> is the head of a list that
  is never empty.  The identifier is taken from the path as it stands, and from the
  query after percent-decoding.
\<close>

definition extract_video_id_from_parsed_url :: "parse_result \<Rightarrow> string \<Rightarrow> ustring option" where
  "extract_video_id_from_parsed_url parsed hostname =
     (if hostname = ''youtu.be''
      then (let path = py_lstrip (CHR ''/'') (u_path parsed)
            in if path \<noteq> []
               then (case py_split (CHR ''/'') path of
                       [] \<Rightarrow> None
                     | seg # segs \<Rightarrow> Some (u_strip (ustr seg)))
               else None)
      else (let path_segments = py_split (CHR ''/'') (py_lstrip (CHR ''/'') (u_path parsed))
            in if length path_segments \<ge> 2 \<and> py_lower (path_segments ! 0) \<in> set path_prefixes
               then Some (u_strip (ustr (path_segments ! 1)))
               else if u_query parsed \<noteq> []
               then (case parse_qs_get (u_query parsed) (ustr ''v'') of
                       [] \<Rightarrow> None
                     | v # vs \<Rightarrow> if v \<noteq> [] then Some (u_strip v) else None)
               else None))"

text \<open>
  \<^verbatim>\<open>re.match(r"^[a-zA-Z0-9_-]+$", video_id)\<close>: a non-empty run of the class from the
  start, up to the end of the string or to a line feed that ends it (\<^verbatim>\<open>$\<close> also matches
  there).
\<close>

definition is_id_char :: "nat \<Rightarrow> bool" where
  "is_id_char n =
     ((97 \<le> n \<and> n \<le> 122) \<or> (65 \<le> n \<and> n \<le> 90) \<or> (48 \<le> n \<and> n \<le> 57)
      \<or> n = 95 \<or> n = 45)"

definition re_match_video_id :: "ustring \<Rightarrow> bool" where
  "re_match_video_id s =
     (let body = takeWhile is_id_char s;
          rest = dropWhile is_id_char s
      in body \<noteq> [] \<and> (rest = [] \<or> rest = [0x0A]))"

definition is_valid_video_id :: "ustring \<Rightarrow> bool" where
  "is_valid_video_id video_id = (video_id \<noteq> [] \<and> re_match_video_id video_id)"

text \<open>The body of the \<^verbatim>\<open>try\<close> of \<^verbatim>\<open>_parse_youtube_url\<close>, then the \<^verbatim>\<open>except\<close> clause.\<close>

definition parse_youtube_url_try :: "string \<Rightarrow> py_exc + ustring option" where
  "parse_youtube_url_try url =
     (case urlparse (py_strip url) of
        Inl e \<Rightarrow> Inl e
      | Inr parsed \<Rightarrow>
          (let hostname = py_lower (case hostname_of parsed of None \<Rightarrow> [] | Some h \<Rightarrow> h)
           in if hostname \<notin> youtube_domains then Inr None
              else (case extract_video_id_from_parsed_url parsed hostname of
                      None \<Rightarrow> Inr None
                    | Some video_id \<Rightarrow>
                        if video_id \<noteq> [] \<and> is_valid_video_id video_id
                        then Inr (Some video_id) else Inr None)))"

definition parse_youtube_url :: "string \<Rightarrow> py_exc + ustring option" where
  "parse_youtube_url url =
     (case parse_youtube_url_try url of
        Inl AttributeError \<Rightarrow> Inr None
      | Inl TypeError \<Rightarrow> Inr None
      | Inl ValueError \<Rightarrow> Inr None
      | Inl OtherException \<Rightarrow> Inl OtherException
      | Inr r \<Rightarrow> Inr r)"

subsection \<open>The world of SourcesAPI\<close>

type_synonym byte = "8 word"

text \<open>
  What \<^verbatim>\<open>os.stat\<close> finds for a path: a regular file with its content, or a node of
  another kind, such as a directory (with the size \<^verbatim>\<open>stat\<close> reports for it); or the
  \<^verbatim>\<open>errno\<close> of the \<^verbatim>\<open>OSError\<close> it raises, \<open>ENOENT\<close> for a path that names nothing.  The file
  system is keyed by the string the caller passed; it does not change during a call.
\<close>

datatype fs_node = RegularFile "byte list" | Directory nat

definition ENOENT :: nat where
  "ENOENT = 2"

definition EBADF :: nat where
  "EBADF = 9"

definition ENOTDIR :: nat where
  "ENOTDIR = 20"


definition ELOOP :: nat where
  "ELOOP = 40"

datatype rpc_method = ADD_SOURCE | ADD_SOURCE_FILE | LIST_SOURCES | DELETE_SOURCE

text \<open>
  A request body: the JSON object handed to \<^verbatim>\<open>json.dumps\<close>, or the chunks an
  asynchronous generator yields.
\<close>

datatype body = JsonBody "(string \<times> string) list" | StreamBody "byte list list"

record post_response =
  p_status_code :: nat
  p_headers :: "(string \<times> string) list"

text \<open>
  Every call that leaves the process is recorded: \<^verbatim>\<open>self._core.rpc_call\<close> with its
  method, parameters, source path and \<^verbatim>\<open>allow_null\<close>; \<^verbatim>\<open>client.post\<close> with its URL, headers
  and body.
\<close>

datatype event =
    RpcCall rpc_method pyval string bool
  | HttpPost string "(string \<times> string) list" body

text \<open>
  The answers of the outside: \<open>Inl\<close> is an exception raised by the call, with its
  message.
\<close>

record sources_env =
  fs :: "string \<Rightarrow> nat + fs_node"
  rpc_call :: "rpc_method \<Rightarrow> pyval \<Rightarrow> string \<Rightarrow> bool \<Rightarrow> string + pyval"
  http_post :: "string \<Rightarrow> (string \<times> string) list \<Rightarrow> body \<Rightarrow> string + post_response"
  cookie_header :: string

text \<open>
  The exceptions that leave \<^verbatim>\<open>SourcesAPI\<close>: \<open>SourceAddError\<close> is the only one the module
  raises itself (source or file name, message); the others pass through it unchanged:
  what \<^verbatim>\<open>rpc_call\<close> raised, what \<^verbatim>\<open>client.post\<close> raised, what
  \<^verbatim>\<open>response.raise_for_status()\<close> raised, what \<^verbatim>\<open>open\<close> raised, the \<^verbatim>\<open>OSError\<close> that
  \<^verbatim>\<open>Path.exists\<close>, \<^verbatim>\<open>Path.is_file\<close> or \<^verbatim>\<open>Path.stat\<close> raised (with its \<^verbatim>\<open>errno\<close>), and
  any other exception that nothing caught.
\<close>

datatype sources_error =
    SourceAddError string string
  | RemoteCallError string
  | PostError string
  | PostStatusError nat
  | OpenError string
  | OSError nat
  | Uncaught py_exc

text \<open>
  \<^verbatim>\<open>Path.stat\<close>: a path with a null character raises \<^verbatim>\<open>ValueError\<close> without asking the
  file system.  \<^verbatim>\<open>Path.exists\<close> and \<^verbatim>\<open>Path.is_file\<close> (pathlib of CPython 3.11) answer
  \<^verbatim>\<open>False\<close> on that \<^verbatim>\<open>ValueError\<close> and on an \<^verbatim>\<open>OSError\<close> whose \<^verbatim>\<open>errno\<close> is one of
  \<^verbatim>\<open>_IGNORED_ERRNOS\<close>, and let every other \<^verbatim>\<open>OSError\<close> through.
\<close>

definition path_stat :: "sources_env \<Rightarrow> string \<Rightarrow> sources_error + fs_node" where
  "path_stat env p =
     (if CHR 0x00 \<in> set p then Inl (Uncaught ValueError)
      else (case fs env p of
              Inl errno \<Rightarrow> Inl (OSError errno)
            | Inr node \<Rightarrow> Inr node))"

definition ignore_error :: "nat \<Rightarrow> bool" where
  "ignore_error errno = (errno \<in> {ENOENT, ENOTDIR, EBADF, ELOOP})"

definition path_exists :: "sources_env \<Rightarrow> string \<Rightarrow> sources_error + bool" where
  "path_exists env p =
     (case path_stat env p of
        Inl (OSError errno) \<Rightarrow> if ignore_error errno then Inr False else Inl (OSError errno)
      | Inl e \<Rightarrow> Inr False
      | Inr node \<Rightarrow> Inr True)"

definition path_is_file :: "sources_env \<Rightarrow> string \<Rightarrow> sources_error + bool" where
  "path_is_file env p =
     (case path_stat env p of
        Inl (OSError errno) \<Rightarrow> if ignore_error errno then Inr False else Inl (OSError errno)
      | Inl e \<Rightarrow> Inr False
      | Inr (RegularFile f) \<Rightarrow> Inr True
      | Inr (Directory n) \<Rightarrow> Inr False)"

type_synonym 'a io = "event list \<Rightarrow> (sources_error + 'a) \<times> event list"

definition do_rpc_call ::
  "sources_env \<Rightarrow> rpc_method \<Rightarrow> pyval \<Rightarrow> string \<Rightarrow> bool \<Rightarrow> pyval io" where
  "do_rpc_call env method params source_path allow_null tr =
     ((case rpc_call env method params source_path allow_null of
         Inl msg \<Rightarrow> Inl (RemoteCallError msg)
       | Inr reply \<Rightarrow> Inr reply),
      tr @ [RpcCall method params source_path allow_null])"

definition do_post ::
  "sources_env \<Rightarrow> string \<Rightarrow> (string \<times> string) list \<Rightarrow> body \<Rightarrow> post_response io" where
  "do_post env url headers content tr =
     ((case http_post env url headers content of
         Inl msg \<Rightarrow> Inl (PostError msg)
       | Inr response \<Rightarrow> Inr response),
      tr @ [HttpPost url headers content])"

text \<open>\<^verbatim>\<open>response.raise_for_status()\<close> of httpx: an exception unless the status is 2xx.\<close>

definition raise_for_status :: "post_response \<Rightarrow> sources_error + unit" where
  "raise_for_status response =
     (if 200 \<le> p_status_code response \<and> p_status_code response \<le> 299 then Inr ()
      else Inl (PostStatusError (p_status_code response)))"

subsection \<open>Adding a URL or a video, listing, deleting\<close>

definition tail_params :: pyval where
  "tail_params = PList ([PInt 1] @ replicate 9 PNone @ [PList [PInt 1]])"

definition notebook_path :: "string \<Rightarrow> string" where
  "notebook_path notebook_id = ''/notebook/'' @ notebook_id"

definition add_youtube_source :: "sources_env \<Rightarrow> string \<Rightarrow> string \<Rightarrow> pyval io" where
  "add_youtube_source env notebook_id url =
     do_rpc_call env ADD_SOURCE
       (PList [PList [PList (replicate 7 PNone @ [PList [PStr url], PNone, PNone, PInt 1])],
               PStr notebook_id, PList [PInt 2], tail_params])
       (notebook_path notebook_id) True"

definition add_url_source :: "sources_env \<Rightarrow> string \<Rightarrow> string \<Rightarrow> pyval io" where
  "add_url_source env notebook_id url =
     do_rpc_call env ADD_SOURCE
       (PList [PList [PList ([PNone, PNone, PList [PStr url]] @ replicate 7 PNone @ [PInt 1])],
               PStr notebook_id, PList [PInt 2], tail_params])
       (notebook_path notebook_id) True"

definition SourcesAPI_list :: "sources_env \<Rightarrow> string \<Rightarrow> pyval io" where
  "SourcesAPI_list env notebook_id =
     do_rpc_call env LIST_SOURCES (PList [PStr notebook_id]) (notebook_path notebook_id) False"

definition SourcesAPI_delete :: "sources_env \<Rightarrow> string \<Rightarrow> string \<Rightarrow> unit io" where
  "SourcesAPI_delete env notebook_id source_id tr =
     (case do_rpc_call env DELETE_SOURCE (PList [PStr notebook_id, PStr source_id])
             (notebook_path notebook_id) False tr of
        (Inl e, tr') \<Rightarrow> (Inl e, tr')
      | (Inr reply, tr') \<Rightarrow> (Inr (), tr'))"

subsection \<open>Adding a local file\<close>

text \<open>\<^verbatim>\<open>str(n)\<close> for a size, and \<^verbatim>\<open>Path.name\<close>: the last component that is not empty or a dot.\<close>

fun str_of_nat :: "nat \<Rightarrow> string" where
  "str_of_nat n =
     (if n < 10 then [char_of (48 + n)]
      else str_of_nat (n div 10) @ [char_of (48 + n mod 10)])"

declare str_of_nat.simps [simp del]

definition path_name :: "string \<Rightarrow> string" where
  "path_name p =
     (case rev (filter (\<lambda>c. c \<noteq> [] \<and> c \<noteq> ''.'') (py_split (CHR ''/'') p)) of
        [] \<Rightarrow> []
      | c # cs \<Rightarrow> c)"

definition UPLOAD_URL :: string where
  "UPLOAD_URL = ''https://upload.notebooklm.google.com/upload/notebooklm/v1/sources''"

text \<open>
  \<^verbatim>\<open>_register_file_source\<close>: one call, then the identifier is dug out of the reply; a
  reply that is empty or no list, and an identifier that is missing or empty, raise.
\<close>

definition register_file_source :: "sources_env \<Rightarrow> string \<Rightarrow> string \<Rightarrow> string io" where
  "register_file_source env notebook_id filename tr =
     (case do_rpc_call env ADD_SOURCE_FILE
             (PList [PList [PList [PStr filename]], PStr notebook_id, PList [PInt 2], tail_params])
             (notebook_path notebook_id) True tr of
        (Inl e, tr') \<Rightarrow> (Inl e, tr')
      | (Inr result, tr') \<Rightarrow>
          (if truthy result \<and> is_list result
           then (case extract_id result of
                   Some source_id \<Rightarrow>
                     if source_id \<noteq> [] then Inr source_id
                     else Inl (SourceAddError filename
                            ''Failed to get SOURCE_ID from registration response'')
                 | None \<Rightarrow>
                     Inl (SourceAddError filename
                            ''Failed to get SOURCE_ID from registration response''))
           else Inl (SourceAddError filename
                  ''Failed to get SOURCE_ID from registration response''),
           tr'))"

text \<open>
  \<^verbatim>\<open>_start_resumable_upload\<close>.  Header names of the response are compared in lower case
  (\<^verbatim>\<open>response.headers\<close> ignores case); \<open>p_headers\<close> holds them lowered.
\<close>

definition start_resumable_upload ::
  "sources_env \<Rightarrow> string \<Rightarrow> string \<Rightarrow> nat \<Rightarrow> string \<Rightarrow> string io" where
  "start_resumable_upload env notebook_id filename file_size source_id tr =
     (let url = UPLOAD_URL @ ''?authuser=0'';
          headers =
            [(''Accept'', ''*/*''),
             (''Content-Type'', ''application/x-www-form-urlencoded;charset=UTF-8''),
             (''Cookie'', cookie_header env),
             (''Origin'', ''https://notebooklm.google.com''),
             (''Referer'', ''https://notebooklm.google.com/''),
             (''x-goog-authuser'', ''0''),
             (''x-goog-upload-command'', ''start''),
             (''x-goog-upload-header-content-length'', str_of_nat file_size),
             (''x-goog-upload-protocol'', ''resumable'')];
          content = JsonBody [(''PROJECT_ID'', notebook_id), (''SOURCE_NAME'', filename),
                              (''SOURCE_ID'', source_id)]
      in case do_post env url headers content tr of
           (Inl e, tr') \<Rightarrow> (Inl e, tr')
         | (Inr response, tr') \<Rightarrow>
             (case raise_for_status response of
                Inl e \<Rightarrow> (Inl e, tr')
              | Inr u \<Rightarrow>
                  (case map_of (p_headers response) ''x-goog-upload-url'' of
                     None \<Rightarrow>
                       (Inl (SourceAddError filename
                          ''Failed to get upload URL from response headers''), tr')
                   | Some upload_url \<Rightarrow>
                       if upload_url = []
                       then (Inl (SourceAddError filename
                          ''Failed to get upload URL from response headers''), tr')
                       else (Inr upload_url, tr'))))"

text \<open>
  The generator \<^verbatim>\<open>file_stream\<close>: \<^verbatim>\<open>while chunk := f.read(n): yield chunk\<close>, where a read of
  a regular file gives the next \<open>n\<close> bytes, or what is left of them.
\<close>

function file_stream :: "nat \<Rightarrow> byte list \<Rightarrow> byte list list" where
  "file_stream n f =
     (let chunk = take n f
      in if chunk = [] then [] else chunk # file_stream n (drop n f))"
  by pat_completeness auto
termination
  by (relation "measure (\<lambda>(n, f). length f)") auto

declare file_stream.simps [simp del]

text \<open>
  \<^verbatim>\<open>_upload_file_streaming\<close>.  When the path cannot be opened as a file, \<^verbatim>\<open>open\<close> raises
  while the body is produced, and no request is recorded.
\<close>

definition upload_file_streaming :: "sources_env \<Rightarrow> string \<Rightarrow> string \<Rightarrow> unit io" where
  "upload_file_streaming env upload_url file_path tr =
     (let headers =
            [(''Accept'', ''*/*''),
             (''Content-Type'', ''application/x-www-form-urlencoded;charset=utf-8''),
             (''Cookie'', cookie_header env),
             (''Origin'', ''https://notebooklm.google.com''),
             (''Referer'', ''https://notebooklm.google.com/''),
             (''x-goog-authuser'', ''0''),
             (''x-goog-upload-command'', ''upload, finalize''),
             (''x-goog-upload-offset'', ''0'')]
      in case fs env file_path of
           Inl errno \<Rightarrow> (Inl (OpenError file_path), tr)
         | Inr (Directory n) \<Rightarrow> (Inl (OpenError file_path), tr)
         | Inr (RegularFile f) \<Rightarrow>
             (case do_post env upload_url headers (StreamBody (file_stream 65536 f)) tr of
                (Inl e, tr') \<Rightarrow> (Inl e, tr')
              | (Inr response, tr') \<Rightarrow>
                  (case raise_for_status response of
                     Inl e \<Rightarrow> (Inl e, tr')
                   | Inr u \<Rightarrow> (Inr (), tr'))))"

text \<open>\<^verbatim>\<open>st_size\<close>: the length of a regular file, what \<^verbatim>\<open>stat\<close> reports for another node.\<close>

definition st_size :: "fs_node \<Rightarrow> nat" where
  "st_size node = (case node of RegularFile f \<Rightarrow> length f | Directory n \<Rightarrow> n)"

definition add_file_source :: "sources_env \<Rightarrow> string \<Rightarrow> string \<Rightarrow> string io" where
  "add_file_source env notebook_id file_path tr =
     (case path_exists env file_path of
        Inl e \<Rightarrow> (Inl e, tr)
      | Inr False \<Rightarrow> (Inl (SourceAddError file_path ''File not found''), tr)
      | Inr True \<Rightarrow>
          (case path_stat env file_path of
             Inl e \<Rightarrow> (Inl e, tr)
           | Inr node \<Rightarrow>
               (let file_size = st_size node;
                    filename = path_name file_path
                in case register_file_source env notebook_id filename tr of
                     (Inl e, tr1) \<Rightarrow> (Inl e, tr1)
                   | (Inr source_id, tr1) \<Rightarrow>
                       (case start_resumable_upload env notebook_id filename file_size
                               source_id tr1 of
                          (Inl e, tr2) \<Rightarrow> (Inl e, tr2)
                        | (Inr upload_url, tr2) \<Rightarrow>
                            (case upload_file_streaming env upload_url file_path tr2 of
                               (Inl e, tr3) \<Rightarrow> (Inl e, tr3)
                             | (Inr u, tr3) \<Rightarrow> (Inr source_id, tr3))))))"

subsection \<open>SourcesAPI.add\<close>

text \<open>
  \<^verbatim>\<open>path.exists() and path.is_file()\<close>: the second test is made only when the first
  answers \<^verbatim>\<open>True\<close>; an \<^verbatim>\<open>OSError\<close> of either leaves \<^verbatim>\<open>add\<close>, which has no \<^verbatim>\<open>try\<close>.
\<close>

definition is_existing_file :: "sources_env \<Rightarrow> string \<Rightarrow> sources_error + bool" where
  "is_existing_file env source =
     (case path_exists env source of
        Inl e \<Rightarrow> Inl e
      | Inr False \<Rightarrow> Inr False
      | Inr True \<Rightarrow> path_is_file env source)"

text \<open>
  \<^verbatim>\<open>if video_id:\<close> holds for a string that is not empty.  In the video branch the reply
  is tested (\<^verbatim>\<open>if result and isinstance(result, list): pass\<close>) and the test changes nothing.
\<close>

definition SourcesAPI_add :: "sources_env \<Rightarrow> string \<Rightarrow> string \<Rightarrow> string io" where
  "SourcesAPI_add env notebook_id source tr =
     (case is_existing_file env source of
        Inl e \<Rightarrow> (Inl e, tr)
      | Inr True \<Rightarrow> add_file_source env notebook_id source tr
      | Inr False \<Rightarrow>
          (case parse_youtube_url source of
             Inl e \<Rightarrow> (Inl (Uncaught e), tr)
           | Inr video_id \<Rightarrow>
               if (case video_id of None \<Rightarrow> False | Some v \<Rightarrow> v \<noteq> [])
               then (case add_youtube_source env notebook_id source tr of
                       (Inl e, tr') \<Rightarrow> (Inl e, tr')
                     | (Inr result, tr') \<Rightarrow> (Inr ''youtube_source_added'', tr'))
               else (case add_url_source env notebook_id source tr of
                       (Inl e, tr') \<Rightarrow> (Inl e, tr')
                     | (Inr result, tr') \<Rightarrow>
                         if \<not> truthy result \<or> \<not> is_list result
                         then (Inl (SourceAddError source ''Failed to add URL source''), tr')
                         else (Inr ''url_source_added'', tr'))))"

subsection \<open>Reading a trace\<close>

text \<open>
  The phase of the upload protocol a recorded call belongs to: the registration is the
  remote call \<^verbatim>\<open>ADD_SOURCE_FILE\<close>; the negotiation and the transfer are the POST requests
  whose \<^verbatim>\<open>x-goog-upload-command\<close> is \<^verbatim>\<open>start\<close> and \<^verbatim>\<open>upload, finalize\<close>.
\<close>

datatype phase = Register | Negotiate | Transfer | Other

fun phase_of :: "event \<Rightarrow> phase" where
  "phase_of (RpcCall method params source_path allow_null) =
     (if method = ADD_SOURCE_FILE then Register else Other)"
| "phase_of (HttpPost url headers content) =
     (case map_of headers ''x-goog-upload-command'' of
        None \<Rightarrow> Other
      | Some command \<Rightarrow>
          if command = ''start'' then Negotiate
          else if command = ''upload, finalize'' then Transfer
          else Other)"

text \<open>The exceptions the module raises itself, as opposed to those that pass through it.\<close>

fun raised_by_module :: "sources_error \<Rightarrow> bool" where
  "raised_by_module (SourceAddError source message) = True"
| "raised_by_module e = False"

section \<open>Example inputs\<close>

text \<open>Concrete worlds the closed theorems below are evaluated on.\<close>

definition cookie_of :: "string \<Rightarrow> string \<Rightarrow> string \<Rightarrow> cookie" where
  "cookie_of d n v = \<lparr>c_domain = Some d, c_name = Some n, c_value = Some v\<rparr>"

definition mixed_storage :: storage_state where
  "mixed_storage =
     \<lparr>ss_cookies = Some [cookie_of ''.google.com'' ''SID'' ''s'',
                         cookie_of ''lh3.google.com'' ''NID'' ''n'',
                         cookie_of ''.google.com'' ''HSID'' [],
                         cookie_of ''evil-google.com'' ''X'' ''y'']\<rparr>"

definition empty_sid_storage :: storage_state where
  "empty_sid_storage = \<lparr>ss_cookies = Some [cookie_of ''.google.com'' ''SID'' []]\<rparr>"

definition sid_storage :: storage_file where
  "sid_storage = Json \<lparr>ss_cookies = Some [cookie_of ''.google.com'' ''SID'' ''xyz'']\<rparr>"

text \<open>
  A world whose landing page answers every request from the login host, with the given
  status.
\<close>

definition login_env :: "nat \<Rightarrow> auth_env" where
  "login_env status =
     \<lparr>storage_files = (\<lambda>p. sid_storage),
      DEFAULT_STORAGE_PATH = ''/home/user/.notebooklm/storage_state.json'',
      landing_page = (\<lambda>h. Inr \<lparr>r_status_code = status,
                                  r_url = ''https://accounts.google.com/v3/signin/identifier'',
                                  r_text = ''<html>Sign in</html>''\<rparr>)\<rparr>"

text \<open>
  A world without files in which every remote call has the given outcome, and a world
  with one file of five bytes in which the three phases of an upload succeed.
\<close>

definition reply_env :: "string + pyval \<Rightarrow> sources_env" where
  "reply_env outcome =
     \<lparr>fs = (\<lambda>p. Inl ENOENT),
      rpc_call = (\<lambda>method params source_path allow_null. outcome),
      http_post = (\<lambda>url headers content. Inl ''no route''),
      cookie_header = ''SID=xyz''\<rparr>"

definition upload_env :: sources_env where
  "upload_env =
     \<lparr>fs = (\<lambda>p. if p = ''docs/a.txt'' then Inr (RegularFile [1, 2, 3, 4, 5]) else Inl ENOENT),
      rpc_call = (\<lambda>method params source_path allow_null.
                    Inr (PList [PList [PList [PStr ''src-1'']]])),
      http_post = (\<lambda>url headers content.
                    Inr \<lparr>p_status_code = 200,
                         p_headers = [(''x-goog-upload-url'', ''https://upload.example/s/1'')]\<rparr>),
      cookie_header = ''SID=xyz''\<rparr>"

text \<open>The remote call of the video branch, written out.\<close>

definition video_call :: "string \<Rightarrow> string \<Rightarrow> event" where
  "video_call notebook_id url =
     RpcCall ADD_SOURCE
       (PList [PList [PList [PNone, PNone, PNone, PNone, PNone, PNone, PNone,
                             PList [PStr url], PNone, PNone, PInt 1]],
               PStr notebook_id, PList [PInt 2],
               PList [PInt 1, PNone, PNone, PNone, PNone, PNone, PNone, PNone, PNone, PNone,
                      PList [PInt 1]]])
       (''/notebook/'' @ notebook_id) True"



section \<open>Properties of auth.py\<close>

subsection \<open>The two cookie loops\<close>

lemma allowed_domain_suffixes:
  "is_allowed_cookie_domain d \<longleftrightarrow>
     d \<in> ALLOWED_COOKIE_DOMAINS \<or> suffix ''.google.com'' d \<or> suffix ''.googleusercontent.com'' d"
proof -
  have "suffix ''.google.com'' ''.usercontent.google.com''"
    by (simp add: suffix_to_prefix)
  then have "suffix ''.usercontent.google.com'' d \<Longrightarrow> suffix ''.google.com'' d"
    using suffix_order.trans by blast
  then show ?thesis
    by (auto simp: is_allowed_cookie_domain_def allowed_suffixes_def py_endswith_def)
qed

lemma allowed_domain_by_allow_list:
  "is_allowed_cookie_domain d \<longleftrightarrow>
     d \<in> ALLOWED_COOKIE_DOMAINS \<or>
     (\<exists>a\<in>ALLOWED_COOKIE_DOMAINS. prefix ''.'' a \<and> py_endswith d a)"
  unfolding allowed_domain_suffixes
  by (auto simp: ALLOWED_COOKIE_DOMAINS_def py_endswith_def)

lemma extract_loop_keys:
  "fst ` set (extract_loop cs acc) =
     fst ` set acc \<union>
     {n. \<exists>c\<in>set cs. get_or_empty (c_domain c) \<in> ALLOWED_COOKIE_DOMAINS \<and> c_name c = Some n \<and> n \<noteq> []}"
proof (induction cs arbitrary: acc)
  case Nil
  then show ?case by simp
next
  case (Cons c cs)
  show ?case
    by (auto simp: Cons.IH Let_def dom_update split: option.splits)
qed

lemma httpx_loop_names:
  "snd (httpx_loop cs (jar, names)) =
     names \<union> {n. \<exists>c\<in>set cs. is_allowed_cookie_domain (get_or_empty (c_domain c))
                  \<and> get_or_empty (c_name c) = n \<and> n \<noteq> [] \<and> get_or_empty (c_value c) \<noteq> []}"
proof (induction cs arbitrary: jar names)
  case Nil
  then show ?case by simp
next
  case (Cons c cs)
  show ?case
    by (auto simp: Cons.IH Let_def)
qed

lemma httpx_loop_keys:
  "fst ` set (fst (httpx_loop cs (jar, names))) =
     fst ` set jar \<union>
     {(d, n). \<exists>c\<in>set cs. get_or_empty (c_domain c) = d \<and> is_allowed_cookie_domain d
                  \<and> get_or_empty (c_name c) = n \<and> n \<noteq> [] \<and> get_or_empty (c_value c) \<noteq> []}"
proof (induction cs arbitrary: jar names)
  case Nil
  then show ?case by simp
next
  case (Cons c cs)
  show ?case
    by (auto simp: Cons.IH Let_def dom_update)
qed

lemma missing_iff: "MINIMUM_REQUIRED_COOKIES - A \<noteq> {} \<longleftrightarrow> ''SID'' \<notin> A"
  by (auto simp: MINIMUM_REQUIRED_COOKIES_def)

lemma required_subset_iff: "MINIMUM_REQUIRED_COOKIES \<subseteq> A \<longleftrightarrow> ''SID'' \<in> A"
  by (auto simp: MINIMUM_REQUIRED_COOKIES_def)

lemma get_or_empty_eq_nonempty: "s \<noteq> [] \<Longrightarrow> get_or_empty x = s \<longleftrightarrow> x = Some s"
  by (cases x) (auto simp: get_or_empty_def)

lemma mixed_extract:
  "extract_cookies_from_storage mixed_storage = Inr [(''SID'', ''s''), (''HSID'', [])]"
  by (simp add: extract_cookies_from_storage_def mixed_storage_def get_cookies_def cookie_of_def
      get_or_empty_def ALLOWED_COOKIE_DOMAINS_def MINIMUM_REQUIRED_COOKIES_def)

lemma mixed_httpx:
  "httpx_cookies_of mixed_storage =
     Inr [((''.google.com'', ''SID''), ''s''), ((''lh3.google.com'', ''NID''), ''n'')]"
  by (simp add: httpx_cookies_of_def mixed_storage_def get_cookies_def cookie_of_def
      get_or_empty_def Let_def allowed_domain_suffixes suffix_to_prefix
      ALLOWED_COOKIE_DOMAINS_def MINIMUM_REQUIRED_COOKIES_def)

lemma empty_sid_httpx:
  "httpx_cookies_of empty_sid_storage = Inl (MissingCookies {''SID''})"
  by (simp add: httpx_cookies_of_def empty_sid_storage_def get_cookies_def cookie_of_def
      get_or_empty_def Let_def allowed_domain_suffixes suffix_to_prefix
      ALLOWED_COOKIE_DOMAINS_def MINIMUM_REQUIRED_COOKIES_def)

lemma empty_sid_extract:
  "extract_cookies_from_storage empty_sid_storage = Inr [(''SID'', [])]"
  by (simp add: extract_cookies_from_storage_def empty_sid_storage_def get_cookies_def
      cookie_of_def get_or_empty_def ALLOWED_COOKIE_DOMAINS_def MINIMUM_REQUIRED_COOKIES_def)

lemma snoc_decomposition:
  "xs @ [x] = pre @ c # post \<longleftrightarrow>
     (post = [] \<and> pre = xs \<and> c = x) \<or> (\<exists>post'. post = post' @ [x] \<and> xs = pre @ c # post')"
proof (cases post rule: rev_cases)
  case Nil
  then show ?thesis by auto
next
  case (snoc post' y)
  then show ?thesis by auto
qed

lemma last_kept_entry:
  "map_of (rev (map e (filter keep L))) k = Some v \<longleftrightarrow>
     (\<exists>pre c post. L = pre @ c # post \<and> keep c \<and> e c = (k, v)
        \<and> (\<forall>c'\<in>set post. keep c' \<longrightarrow> fst (e c') \<noteq> k))"
proof (induction L rule: rev_induct)
  case Nil
  then show ?case by simp
next
  case (snoc x xs)
  show ?case
  proof (cases "keep x \<and> fst (e x) = k")
    case True
    then have l: "map_of (rev (map e (filter keep (xs @ [x])))) k = Some (snd (e x))"
      by (cases "e x") simp
    have r: "(\<exists>pre c post. xs @ [x] = pre @ c # post \<and> keep c \<and> e c = (k, v)
        \<and> (\<forall>c'\<in>set post. keep c' \<longrightarrow> fst (e c') \<noteq> k)) \<longleftrightarrow> e x = (k, v)"
    proof
      assume "\<exists>pre c post. xs @ [x] = pre @ c # post \<and> keep c \<and> e c = (k, v)
        \<and> (\<forall>c'\<in>set post. keep c' \<longrightarrow> fst (e c') \<noteq> k)"
      then obtain pre c post where d: "xs @ [x] = pre @ c # post" and c: "e c = (k, v)"
        and p: "\<forall>c'\<in>set post. keep c' \<longrightarrow> fst (e c') \<noteq> k"
        by blast
      from d have "(post = [] \<and> pre = xs \<and> c = x) \<or> (\<exists>post'. post = post' @ [x])"
        unfolding snoc_decomposition by blast
      with p True have "c = x" by auto
      with c show "e x = (k, v)" by simp
    next
      assume "e x = (k, v)"
      with True have "xs @ [x] = xs @ x # [] \<and> keep x \<and> e x = (k, v)
        \<and> (\<forall>c'\<in>set []. keep c' \<longrightarrow> fst (e c') \<noteq> k)"
        by simp
      then show "\<exists>pre c post. xs @ [x] = pre @ c # post \<and> keep c \<and> e c = (k, v)
        \<and> (\<forall>c'\<in>set post. keep c' \<longrightarrow> fst (e c') \<noteq> k)"
        by blast
    qed
    from True have "e x = (k, v) \<longleftrightarrow> snd (e x) = v"
      by (cases "e x") auto
    with l r show ?thesis by simp
  next
    case False
    then have l: "map_of (rev (map e (filter keep (xs @ [x])))) k =
        map_of (rev (map e (filter keep xs))) k"
      by (cases "e x") auto
    have r: "(\<exists>pre c post. xs @ [x] = pre @ c # post \<and> keep c \<and> e c = (k, v)
        \<and> (\<forall>c'\<in>set post. keep c' \<longrightarrow> fst (e c') \<noteq> k)) \<longleftrightarrow>
      (\<exists>pre c post. xs = pre @ c # post \<and> keep c \<and> e c = (k, v)
        \<and> (\<forall>c'\<in>set post. keep c' \<longrightarrow> fst (e c') \<noteq> k))"
    proof
      assume "\<exists>pre c post. xs @ [x] = pre @ c # post \<and> keep c \<and> e c = (k, v)
        \<and> (\<forall>c'\<in>set post. keep c' \<longrightarrow> fst (e c') \<noteq> k)"
      then obtain pre c post where d: "xs @ [x] = pre @ c # post" and kc: "keep c"
        and c: "e c = (k, v)"
        and p: "\<forall>c'\<in>set post. keep c' \<longrightarrow> fst (e c') \<noteq> k"
        by blast
      from d consider "post = []" "pre = xs" "c = x"
        | post' where "post = post' @ [x]" "xs = pre @ c # post'"
        unfolding snoc_decomposition by blast
      then show "\<exists>pre c post. xs = pre @ c # post \<and> keep c \<and> e c = (k, v)
        \<and> (\<forall>c'\<in>set post. keep c' \<longrightarrow> fst (e c') \<noteq> k)"
      proof cases
        case 1
        with kc c False show ?thesis by simp
      next
        case 2
        with kc c p have "xs = pre @ c # post' \<and> keep c \<and> e c = (k, v)
          \<and> (\<forall>c'\<in>set post'. keep c' \<longrightarrow> fst (e c') \<noteq> k)"
          by simp
        then show ?thesis by blast
      qed
    next
      assume "\<exists>pre c post. xs = pre @ c # post \<and> keep c \<and> e c = (k, v)
        \<and> (\<forall>c'\<in>set post. keep c' \<longrightarrow> fst (e c') \<noteq> k)"
      then obtain pre c post where d: "xs = pre @ c # post" and kc: "keep c"
        and c: "e c = (k, v)"
        and p: "\<forall>c'\<in>set post. keep c' \<longrightarrow> fst (e c') \<noteq> k"
        by blast
      from d kc c p False have "xs @ [x] = pre @ c # (post @ [x]) \<and> keep c \<and> e c = (k, v)
        \<and> (\<forall>c'\<in>set (post @ [x]). keep c' \<longrightarrow> fst (e c') \<noteq> k)"
        by auto
      then show "\<exists>pre c post. xs @ [x] = pre @ c # post \<and> keep c \<and> e c = (k, v)
        \<and> (\<forall>c'\<in>set post. keep c' \<longrightarrow> fst (e c') \<noteq> k)"
        by blast
    qed
    show ?thesis
      unfolding l r by (rule snoc.IH)
  qed
qed

lemma extract_loop_map:
  "map_of (extract_loop cs acc) n =
     (case map_of (rev (map (\<lambda>c. (get_or_empty (c_name c), get_or_empty (c_value c)))
                     (filter (\<lambda>c. get_or_empty (c_domain c) \<in> ALLOWED_COOKIE_DOMAINS
                                \<and> get_or_empty (c_name c) \<noteq> []) cs))) n of
        Some v \<Rightarrow> Some v
      | None \<Rightarrow> map_of acc n)"
proof (induction cs arbitrary: acc)
  case Nil
  then show ?case by simp
next
  case (Cons c cs)
  show ?case
    by (auto simp: Cons.IH Let_def get_or_empty_def update_conv' map_add_def
        split: option.splits)
qed

lemma extract_loop_distinct:
  "distinct (map fst acc) \<Longrightarrow> distinct (map fst (extract_loop cs acc))"
proof (induction cs arbitrary: acc)
  case Nil
  then show ?case by simp
next
  case (Cons c cs)
  then show ?case
    by (auto simp: Let_def distinct_update split: option.splits)
qed

lemma httpx_loop_map:
  "map_of (fst (httpx_loop cs (jar, names))) k =
     (case map_of (rev (map (\<lambda>c. ((get_or_empty (c_domain c), get_or_empty (c_name c)),
                                   get_or_empty (c_value c)))
                     (filter (\<lambda>c. is_allowed_cookie_domain (get_or_empty (c_domain c))
                                \<and> get_or_empty (c_name c) \<noteq> []
                                \<and> get_or_empty (c_value c) \<noteq> []) cs))) k of
        Some v \<Rightarrow> Some v
      | None \<Rightarrow> map_of jar k)"
proof (induction cs arbitrary: jar names)
  case Nil
  then show ?case by simp
next
  case (Cons c cs)
  show ?case
    by (auto simp: Cons.IH Let_def update_conv' map_add_def split: option.splits)
qed

lemma httpx_loop_distinct:
  "distinct (map fst jar) \<Longrightarrow> distinct (map fst (fst (httpx_loop cs (jar, names))))"
proof (induction cs arbitrary: jar names)
  case Nil
  then show ?case by simp
next
  case (Cons c cs)
  then show ?case
    by (auto simp: Let_def distinct_update)
qed

lemma extract_entries:
  assumes "extract_cookies_from_storage st = Inr cks"
  shows "distinct (map fst cks)"
    and "(n, v) \<in> set cks \<longleftrightarrow>
       (\<exists>pre c post. get_cookies st = pre @ c # post
          \<and> get_or_empty (c_domain c) \<in> ALLOWED_COOKIE_DOMAINS
          \<and> c_name c = Some n \<and> n \<noteq> [] \<and> get_or_empty (c_value c) = v
          \<and> (\<forall>c'\<in>set post. \<not> (get_or_empty (c_domain c') \<in> ALLOWED_COOKIE_DOMAINS
                                \<and> c_name c' = Some n)))"
proof -
  from assms have cks: "cks = extract_loop (get_cookies st) []"
    by (auto simp: extract_cookies_from_storage_def Let_def split: if_splits)
  show d: "distinct (map fst cks)"
    unfolding cks by (rule extract_loop_distinct) simp
  have "(n, v) \<in> set cks \<longleftrightarrow> map_of cks n = Some v"
    using d by simp
  also have "\<dots> \<longleftrightarrow>
      map_of (rev (map (\<lambda>c. (get_or_empty (c_name c), get_or_empty (c_value c)))
                     (filter (\<lambda>c. get_or_empty (c_domain c) \<in> ALLOWED_COOKIE_DOMAINS
                                \<and> get_or_empty (c_name c) \<noteq> []) (get_cookies st)))) n = Some v"
    unfolding cks extract_loop_map by (simp split: option.splits)
  also have "\<dots> \<longleftrightarrow>
      (\<exists>pre c post. get_cookies st = pre @ c # post
          \<and> (get_or_empty (c_domain c) \<in> ALLOWED_COOKIE_DOMAINS \<and> get_or_empty (c_name c) \<noteq> [])
          \<and> (get_or_empty (c_name c), get_or_empty (c_value c)) = (n, v)
          \<and> (\<forall>c'\<in>set post. get_or_empty (c_domain c') \<in> ALLOWED_COOKIE_DOMAINS
                                \<and> get_or_empty (c_name c') \<noteq> []
                 \<longrightarrow> fst (get_or_empty (c_name c'), get_or_empty (c_value c')) \<noteq> n))"
    by (rule last_kept_entry)
  also have "\<dots> \<longleftrightarrow>
       (\<exists>pre c post. get_cookies st = pre @ c # post
          \<and> get_or_empty (c_domain c) \<in> ALLOWED_COOKIE_DOMAINS
          \<and> c_name c = Some n \<and> n \<noteq> [] \<and> get_or_empty (c_value c) = v
          \<and> (\<forall>c'\<in>set post. \<not> (get_or_empty (c_domain c') \<in> ALLOWED_COOKIE_DOMAINS
                                \<and> c_name c' = Some n)))"
  proof (cases "n = []")
    case True
    then show ?thesis by auto
  next
    case False
    then have e: "get_or_empty x = n \<longleftrightarrow> x = Some n" for x
      by (rule get_or_empty_eq_nonempty)
    have gs: "get_or_empty (Some x) = x" for x
      by (simp add: get_or_empty_def)
    have inner: "(get_cookies st = pre @ c # post
          \<and> (get_or_empty (c_domain c) \<in> ALLOWED_COOKIE_DOMAINS \<and> get_or_empty (c_name c) \<noteq> [])
          \<and> (get_or_empty (c_name c), get_or_empty (c_value c)) = (n, v)
          \<and> (\<forall>c'\<in>set post. get_or_empty (c_domain c') \<in> ALLOWED_COOKIE_DOMAINS
                                \<and> get_or_empty (c_name c') \<noteq> []
                 \<longrightarrow> fst (get_or_empty (c_name c'), get_or_empty (c_value c')) \<noteq> n)) \<longleftrightarrow>
        (get_cookies st = pre @ c # post
          \<and> get_or_empty (c_domain c) \<in> ALLOWED_COOKIE_DOMAINS
          \<and> c_name c = Some n \<and> n \<noteq> [] \<and> get_or_empty (c_value c) = v
          \<and> (\<forall>c'\<in>set post. \<not> (get_or_empty (c_domain c') \<in> ALLOWED_COOKIE_DOMAINS
                                \<and> c_name c' = Some n)))" for pre c post
      using False by (auto simp: e gs)
    show ?thesis
      by (simp only: inner)
  qed
  finally show "(n, v) \<in> set cks \<longleftrightarrow>
       (\<exists>pre c post. get_cookies st = pre @ c # post
          \<and> get_or_empty (c_domain c) \<in> ALLOWED_COOKIE_DOMAINS
          \<and> c_name c = Some n \<and> n \<noteq> [] \<and> get_or_empty (c_value c) = v
          \<and> (\<forall>c'\<in>set post. \<not> (get_or_empty (c_domain c') \<in> ALLOWED_COOKIE_DOMAINS
                                \<and> c_name c' = Some n)))" .
qed

lemma httpx_entries:
  assumes "httpx_cookies_of st = Inr jar"
  shows "distinct (map fst jar)"
    and "((d, n), v) \<in> set jar \<longleftrightarrow>
       (\<exists>pre c post. get_cookies st = pre @ c # post
          \<and> get_or_empty (c_domain c) = d \<and> get_or_empty (c_name c) = n
          \<and> get_or_empty (c_value c) = v
          \<and> is_allowed_cookie_domain d \<and> n \<noteq> [] \<and> v \<noteq> []
          \<and> (\<forall>c'\<in>set post. \<not> (get_or_empty (c_domain c') = d \<and> get_or_empty (c_name c') = n
                                \<and> get_or_empty (c_value c') \<noteq> [])))"
proof -
  from assms have jar: "jar = fst (httpx_loop (get_cookies st) ([], {}))"
    by (auto simp: httpx_cookies_of_def Let_def split: prod.splits if_splits)
  show d: "distinct (map fst jar)"
    unfolding jar by (rule httpx_loop_distinct) simp
  have "((d, n), v) \<in> set jar \<longleftrightarrow> map_of jar (d, n) = Some v"
    using d by simp
  also have "\<dots> \<longleftrightarrow>
      map_of (rev (map (\<lambda>c. ((get_or_empty (c_domain c), get_or_empty (c_name c)),
                                   get_or_empty (c_value c)))
                     (filter (\<lambda>c. is_allowed_cookie_domain (get_or_empty (c_domain c))
                                \<and> get_or_empty (c_name c) \<noteq> []
                                \<and> get_or_empty (c_value c) \<noteq> []) (get_cookies st)))) (d, n) =
        Some v"
    unfolding jar httpx_loop_map by (simp split: option.splits)
  also have "\<dots> \<longleftrightarrow>
      (\<exists>pre c post. get_cookies st = pre @ c # post
          \<and> (is_allowed_cookie_domain (get_or_empty (c_domain c))
               \<and> get_or_empty (c_name c) \<noteq> [] \<and> get_or_empty (c_value c) \<noteq> [])
          \<and> ((get_or_empty (c_domain c), get_or_empty (c_name c)), get_or_empty (c_value c)) =
               ((d, n), v)
          \<and> (\<forall>c'\<in>set post. is_allowed_cookie_domain (get_or_empty (c_domain c'))
                                \<and> get_or_empty (c_name c') \<noteq> []
                                \<and> get_or_empty (c_value c') \<noteq> []
                 \<longrightarrow> fst ((get_or_empty (c_domain c'), get_or_empty (c_name c')),
                          get_or_empty (c_value c')) \<noteq> (d, n)))"
    by (rule last_kept_entry)
  also have "\<dots> \<longleftrightarrow>
       (\<exists>pre c post. get_cookies st = pre @ c # post
          \<and> get_or_empty (c_domain c) = d \<and> get_or_empty (c_name c) = n
          \<and> get_or_empty (c_value c) = v
          \<and> is_allowed_cookie_domain d \<and> n \<noteq> [] \<and> v \<noteq> []
          \<and> (\<forall>c'\<in>set post. \<not> (get_or_empty (c_domain c') = d \<and> get_or_empty (c_name c') = n
                                \<and> get_or_empty (c_value c') \<noteq> [])))"
  proof -
    have inner: "(get_cookies st = pre @ c # post
          \<and> (is_allowed_cookie_domain (get_or_empty (c_domain c))
               \<and> get_or_empty (c_name c) \<noteq> [] \<and> get_or_empty (c_value c) \<noteq> [])
          \<and> ((get_or_empty (c_domain c), get_or_empty (c_name c)), get_or_empty (c_value c)) =
               ((d, n), v)
          \<and> (\<forall>c'\<in>set post. is_allowed_cookie_domain (get_or_empty (c_domain c'))
                                \<and> get_or_empty (c_name c') \<noteq> []
                                \<and> get_or_empty (c_value c') \<noteq> []
                 \<longrightarrow> fst ((get_or_empty (c_domain c'), get_or_empty (c_name c')),
                          get_or_empty (c_value c')) \<noteq> (d, n))) \<longleftrightarrow>
        (get_cookies st = pre @ c # post
          \<and> get_or_empty (c_domain c) = d \<and> get_or_empty (c_name c) = n
          \<and> get_or_empty (c_value c) = v
          \<and> is_allowed_cookie_domain d \<and> n \<noteq> [] \<and> v \<noteq> []
          \<and> (\<forall>c'\<in>set post. \<not> (get_or_empty (c_domain c') = d \<and> get_or_empty (c_name c') = n
                                \<and> get_or_empty (c_value c') \<noteq> [])))" for pre c post
      by auto
    show ?thesis
      by (simp only: inner)
  qed
  finally show "((d, n), v) \<in> set jar \<longleftrightarrow>
       (\<exists>pre c post. get_cookies st = pre @ c # post
          \<and> get_or_empty (c_domain c) = d \<and> get_or_empty (c_name c) = n
          \<and> get_or_empty (c_value c) = v
          \<and> is_allowed_cookie_domain d \<and> n \<noteq> [] \<and> v \<noteq> []
          \<and> (\<forall>c'\<in>set post. \<not> (get_or_empty (c_domain c') = d \<and> get_or_empty (c_name c') = n
                                \<and> get_or_empty (c_value c') \<noteq> [])))" .
qed

text \<open>
  C1, as amended.  The domain test of the download loader accepts exactly the domains
  that are in the allow-list or end with one of its dot-prefixed members, so
  \<^verbatim>\<open>evil-google.com\<close> is refused and \<^verbatim>\<open>lh3.google.com\<close> and \<^verbatim>\<open>.google.com\<close> are accepted.
  \<^verbatim>\<open>load_httpx_cookies\<close> retains exactly the entries with such a domain whose name and
  value are both non-empty: the jar holds one value per domain and name, that of the last
  such entry of the list, and nothing else.  \<^verbatim>\<open>extract_cookies_from_storage\<close> retains
  exactly the entries whose domain is a member of the allow-list itself (no suffix match)
  and whose name is non-empty: the result holds one value per name, that of the last such
  entry of the list, and nothing else.
\<close>

theorem cookie_filters_by_domain:
  "(is_allowed_cookie_domain d \<longleftrightarrow>
      d \<in> ALLOWED_COOKIE_DOMAINS \<or>
      (\<exists>a\<in>ALLOWED_COOKIE_DOMAINS. prefix ''.'' a \<and> py_endswith d a))
   \<and> (httpx_cookies_of st = Inr jar \<longrightarrow>
        ((d, n) \<in> fst ` set jar \<longleftrightarrow>
           (\<exists>c\<in>set (get_cookies st).
              get_or_empty (c_domain c) = d \<and> get_or_empty (c_name c) = n
              \<and> is_allowed_cookie_domain d \<and> n \<noteq> [] \<and> get_or_empty (c_value c) \<noteq> [])))
   \<and> (extract_cookies_from_storage st = Inr cks \<longrightarrow>
        (n \<in> fst ` set cks \<longleftrightarrow>
           (\<exists>c\<in>set (get_cookies st).
              get_or_empty (c_domain c) \<in> ALLOWED_COOKIE_DOMAINS \<and> c_name c = Some n \<and> n \<noteq> [])))
   \<and> (httpx_cookies_of st = Inr jar \<longrightarrow>
        distinct (map fst jar)
        \<and> (((d, n), v) \<in> set jar \<longleftrightarrow>
             (\<exists>pre c post. get_cookies st = pre @ c # post
                \<and> get_or_empty (c_domain c) = d \<and> get_or_empty (c_name c) = n
                \<and> get_or_empty (c_value c) = v
                \<and> is_allowed_cookie_domain d \<and> n \<noteq> [] \<and> v \<noteq> []
                \<and> (\<forall>c'\<in>set post. \<not> (get_or_empty (c_domain c') = d
                                      \<and> get_or_empty (c_name c') = n
                                      \<and> get_or_empty (c_value c') \<noteq> [])))))
   \<and> (extract_cookies_from_storage st = Inr cks \<longrightarrow>
        distinct (map fst cks)
        \<and> ((n, v) \<in> set cks \<longleftrightarrow>
             (\<exists>pre c post. get_cookies st = pre @ c # post
                \<and> get_or_empty (c_domain c) \<in> ALLOWED_COOKIE_DOMAINS
                \<and> c_name c = Some n \<and> n \<noteq> [] \<and> get_or_empty (c_value c) = v
                \<and> (\<forall>c'\<in>set post. \<not> (get_or_empty (c_domain c') \<in> ALLOWED_COOKIE_DOMAINS
                                      \<and> c_name c' = Some n)))))
   \<and> \<not> is_allowed_cookie_domain ''evil-google.com''
   \<and> is_allowed_cookie_domain ''lh3.google.com''
   \<and> is_allowed_cookie_domain ''.google.com''"
proof -
  have a: "httpx_cookies_of st = Inr jar \<Longrightarrow> jar = fst (httpx_loop (get_cookies st) ([], {}))"
    by (auto simp: httpx_cookies_of_def Let_def split: prod.splits if_splits)
  have b: "extract_cookies_from_storage st = Inr cks \<Longrightarrow> cks = extract_loop (get_cookies st) []"
    by (auto simp: extract_cookies_from_storage_def Let_def split: if_splits)
  have c: "\<not> is_allowed_cookie_domain ''evil-google.com''"
    by (simp add: allowed_domain_suffixes ALLOWED_COOKIE_DOMAINS_def suffix_to_prefix)
  have d: "is_allowed_cookie_domain ''lh3.google.com''"
    by (simp add: allowed_domain_suffixes suffix_to_prefix)
  have e: "is_allowed_cookie_domain ''.google.com''"
    by (simp add: allowed_domain_suffixes)
  have f: "httpx_cookies_of st = Inr jar \<longrightarrow>
        ((d, n) \<in> fst ` set jar \<longleftrightarrow>
           (\<exists>c\<in>set (get_cookies st).
              get_or_empty (c_domain c) = d \<and> get_or_empty (c_name c) = n
              \<and> is_allowed_cookie_domain d \<and> n \<noteq> [] \<and> get_or_empty (c_value c) \<noteq> []))"
  proof
    assume h: "httpx_cookies_of st = Inr jar"
    have "fst ` set jar =
        {(d, n). \<exists>c\<in>set (get_cookies st). get_or_empty (c_domain c) = d \<and> is_allowed_cookie_domain d
                  \<and> get_or_empty (c_name c) = n \<and> n \<noteq> [] \<and> get_or_empty (c_value c) \<noteq> []}"
      using a [OF h] httpx_loop_keys [of "get_cookies st" "[]" "{}"] by simp
    then show "(d, n) \<in> fst ` set jar \<longleftrightarrow>
           (\<exists>c\<in>set (get_cookies st).
              get_or_empty (c_domain c) = d \<and> get_or_empty (c_name c) = n
              \<and> is_allowed_cookie_domain d \<and> n \<noteq> [] \<and> get_or_empty (c_value c) \<noteq> [])"
      by (simp only: mem_Collect_eq prod.case) blast
  qed
  have g: "extract_cookies_from_storage st = Inr cks \<longrightarrow>
        (n \<in> fst ` set cks \<longleftrightarrow>
           (\<exists>c\<in>set (get_cookies st).
              get_or_empty (c_domain c) \<in> ALLOWED_COOKIE_DOMAINS \<and> c_name c = Some n \<and> n \<noteq> []))"
  proof
    assume h: "extract_cookies_from_storage st = Inr cks"
    have "fst ` set cks =
        {n. \<exists>c\<in>set (get_cookies st). get_or_empty (c_domain c) \<in> ALLOWED_COOKIE_DOMAINS
               \<and> c_name c = Some n \<and> n \<noteq> []}"
      using b [OF h] extract_loop_keys [of "get_cookies st" "[]"] by simp
    then show "n \<in> fst ` set cks \<longleftrightarrow>
           (\<exists>c\<in>set (get_cookies st).
              get_or_empty (c_domain c) \<in> ALLOWED_COOKIE_DOMAINS \<and> c_name c = Some n \<and> n \<noteq> [])"
      by (simp only: mem_Collect_eq)
  qed
  have h: "httpx_cookies_of st = Inr jar \<longrightarrow>
        distinct (map fst jar)
        \<and> (((d, n), v) \<in> set jar \<longleftrightarrow>
             (\<exists>pre c post. get_cookies st = pre @ c # post
                \<and> get_or_empty (c_domain c) = d \<and> get_or_empty (c_name c) = n
                \<and> get_or_empty (c_value c) = v
                \<and> is_allowed_cookie_domain d \<and> n \<noteq> [] \<and> v \<noteq> []
                \<and> (\<forall>c'\<in>set post. \<not> (get_or_empty (c_domain c') = d
                                      \<and> get_or_empty (c_name c') = n
                                      \<and> get_or_empty (c_value c') \<noteq> []))))"
    using httpx_entries [of st jar] by (intro impI conjI)
  have i: "extract_cookies_from_storage st = Inr cks \<longrightarrow>
        distinct (map fst cks)
        \<and> ((n, v) \<in> set cks \<longleftrightarrow>
             (\<exists>pre c post. get_cookies st = pre @ c # post
                \<and> get_or_empty (c_domain c) \<in> ALLOWED_COOKIE_DOMAINS
                \<and> c_name c = Some n \<and> n \<noteq> [] \<and> get_or_empty (c_value c) = v
                \<and> (\<forall>c'\<in>set post. \<not> (get_or_empty (c_domain c') \<in> ALLOWED_COOKIE_DOMAINS
                                      \<and> c_name c' = Some n))))"
    using extract_entries [of st cks] by (intro impI conjI)
  show ?thesis
    using allowed_domain_by_allow_list [of d] f g h i c d e by (intro conjI)
qed

theorem cookie_filters_by_domain_witness:
  "httpx_cookies_of mixed_storage =
     Inr [((''.google.com'', ''SID''), ''s''), ((''lh3.google.com'', ''NID''), ''n'')]
   \<and> extract_cookies_from_storage mixed_storage = Inr [(''SID'', ''s''), (''HSID'', [])]
   \<and> (\<exists>c\<in>set (get_cookies mixed_storage).
          get_or_empty (c_domain c) = ''lh3.google.com'' \<and> get_or_empty (c_name c) = ''NID''
          \<and> is_allowed_cookie_domain ''lh3.google.com''
          \<and> get_or_empty (c_value c) \<noteq> [])
   \<and> \<not> (\<exists>c\<in>set (get_cookies mixed_storage).
          get_or_empty (c_domain c) \<in> ALLOWED_COOKIE_DOMAINS \<and> c_name c = Some ''NID'')
   \<and> (\<exists>pre c post. get_cookies mixed_storage = pre @ c # post
          \<and> get_or_empty (c_domain c) = ''lh3.google.com'' \<and> get_or_empty (c_name c) = ''NID''
          \<and> get_or_empty (c_value c) = ''n''
          \<and> (\<forall>c'\<in>set post. \<not> (get_or_empty (c_domain c') = ''lh3.google.com''
                                \<and> get_or_empty (c_name c') = ''NID''
                                \<and> get_or_empty (c_value c') \<noteq> [])))
   \<and> \<not> (\<exists>pre c post. get_cookies mixed_storage = pre @ c # post
          \<and> get_or_empty (c_domain c) \<in> ALLOWED_COOKIE_DOMAINS
          \<and> c_name c = Some ''NID'' \<and> get_or_empty (c_value c) = ''n'')"
proof -
  note t = cookie_filters_by_domain
      [where d = "''lh3.google.com''" and st = mixed_storage
        and jar = "[((''.google.com'', ''SID''), ''s''), ((''lh3.google.com'', ''NID''), ''n'')]"
        and n = "''NID''" and cks = "[(''SID'', ''s''), (''HSID'', [])]" and v = "''n''"]
  have a: "(''lh3.google.com'', ''NID'') \<in>
      fst ` set [((''.google.com'', ''SID''), ''s''), ((''lh3.google.com'', ''NID''), ''n'')]"
    by simp
  have b: "''NID'' \<notin> fst ` set [(''SID'', ''s''), (''HSID'', [])]"
    by simp
  have a': "((''lh3.google.com'', ''NID''), ''n'') \<in>
      set [((''.google.com'', ''SID''), ''s''), ((''lh3.google.com'', ''NID''), ''n'')]"
    by simp
  have b': "(''NID'', ''n'') \<notin> set [(''SID'', ''s''), (''HSID'', [])]"
    by simp
  have 1: "\<exists>c\<in>set (get_cookies mixed_storage).
          get_or_empty (c_domain c) = ''lh3.google.com'' \<and> get_or_empty (c_name c) = ''NID''
          \<and> is_allowed_cookie_domain ''lh3.google.com''
          \<and> get_or_empty (c_value c) \<noteq> []"
    using t mixed_httpx a by blast
  have 2: "\<not> (\<exists>c\<in>set (get_cookies mixed_storage).
          get_or_empty (c_domain c) \<in> ALLOWED_COOKIE_DOMAINS \<and> c_name c = Some ''NID'')"
    using t mixed_extract b by blast
  have 3: "\<exists>pre c post. get_cookies mixed_storage = pre @ c # post
          \<and> get_or_empty (c_domain c) = ''lh3.google.com'' \<and> get_or_empty (c_name c) = ''NID''
          \<and> get_or_empty (c_value c) = ''n''
          \<and> (\<forall>c'\<in>set post. \<not> (get_or_empty (c_domain c') = ''lh3.google.com''
                                \<and> get_or_empty (c_name c') = ''NID''
                                \<and> get_or_empty (c_value c') \<noteq> []))"
    using t mixed_httpx a' by blast
  have 4: "\<not> (\<exists>pre c post. get_cookies mixed_storage = pre @ c # post
          \<and> get_or_empty (c_domain c) \<in> ALLOWED_COOKIE_DOMAINS
          \<and> c_name c = Some ''NID'' \<and> get_or_empty (c_value c) = ''n'')"
  proof
    assume "\<exists>pre c post. get_cookies mixed_storage = pre @ c # post
          \<and> get_or_empty (c_domain c) \<in> ALLOWED_COOKIE_DOMAINS
          \<and> c_name c = Some ''NID'' \<and> get_or_empty (c_value c) = ''n''"
    then have "\<exists>c\<in>set (get_cookies mixed_storage).
          get_or_empty (c_domain c) \<in> ALLOWED_COOKIE_DOMAINS \<and> c_name c = Some ''NID''"
      by auto
    with 2 show False ..
  qed
  show ?thesis
    using mixed_httpx mixed_extract 1 2 3 4 by (intro conjI)
qed

text \<open>
  C1 as stated fails: the cookie \<^verbatim>\<open>NID\<close> of \<^verbatim>\<open>lh3.google.com\<close>, a domain the suffix
  test accepts, is not retained by \<^verbatim>\<open>extract_cookies_from_storage\<close>; and the cookie
  \<^verbatim>\<open>HSID\<close> of \<^verbatim>\<open>.google.com\<close>, whose value is empty, is not retained by
  \<^verbatim>\<open>load_httpx_cookies\<close>.
\<close>

theorem cookie_filter_drops_allowed_domains:
  "is_allowed_cookie_domain ''lh3.google.com''
   \<and> extract_cookies_from_storage mixed_storage = Inr [(''SID'', ''s''), (''HSID'', [])]
   \<and> is_allowed_cookie_domain ''.google.com''
   \<and> httpx_cookies_of mixed_storage =
       Inr [((''.google.com'', ''SID''), ''s''), ((''lh3.google.com'', ''NID''), ''n'')]"
  by (simp add: mixed_extract mixed_httpx allowed_domain_suffixes suffix_to_prefix)

text \<open>
  C9, as amended.  \<^verbatim>\<open>extract_cookies_from_storage\<close> fails, with the missing-cookie
  error, exactly when no entry named \<^verbatim>\<open>SID\<close> has a domain in the allow-list, and
  succeeds otherwise, whatever the value (the empty string included).
  \<^verbatim>\<open>load_httpx_cookies\<close> fails exactly when no entry named \<^verbatim>\<open>SID\<close> has an accepted
  domain and a non-empty value.
\<close>

theorem sid_required:
  "((\<exists>m. extract_cookies_from_storage st = Inl (MissingCookies m)) \<longleftrightarrow>
      \<not> (\<exists>c\<in>set (get_cookies st).
            get_or_empty (c_domain c) \<in> ALLOWED_COOKIE_DOMAINS \<and> c_name c = Some ''SID''))
   \<and> ((\<exists>cks. extract_cookies_from_storage st = Inr cks) \<longleftrightarrow>
      (\<exists>c\<in>set (get_cookies st).
            get_or_empty (c_domain c) \<in> ALLOWED_COOKIE_DOMAINS \<and> c_name c = Some ''SID''))
   \<and> ((\<exists>m. httpx_cookies_of st = Inl (MissingCookies m)) \<longleftrightarrow>
      \<not> (\<exists>c\<in>set (get_cookies st).
            is_allowed_cookie_domain (get_or_empty (c_domain c)) \<and> c_name c = Some ''SID''
            \<and> get_or_empty (c_value c) \<noteq> []))
   \<and> ((\<exists>jar. httpx_cookies_of st = Inr jar) \<longleftrightarrow>
      (\<exists>c\<in>set (get_cookies st).
            is_allowed_cookie_domain (get_or_empty (c_domain c)) \<and> c_name c = Some ''SID''
            \<and> get_or_empty (c_value c) \<noteq> []))"
proof -
  let ?L = "get_cookies st"
  have e: "''SID'' \<in> fst ` set (extract_loop ?L []) \<longleftrightarrow>
      (\<exists>c\<in>set ?L. get_or_empty (c_domain c) \<in> ALLOWED_COOKIE_DOMAINS \<and> c_name c = Some ''SID'')"
    by (auto simp: extract_loop_keys)
  have h: "''SID'' \<in> snd (httpx_loop ?L ([], {})) \<longleftrightarrow>
      (\<exists>c\<in>set ?L. is_allowed_cookie_domain (get_or_empty (c_domain c)) \<and> c_name c = Some ''SID''
            \<and> get_or_empty (c_value c) \<noteq> [])"
    by (auto simp: httpx_loop_names get_or_empty_eq_nonempty)
  have 1: "(\<exists>m. extract_cookies_from_storage st = Inl (MissingCookies m)) \<longleftrightarrow>
      ''SID'' \<notin> fst ` set (extract_loop ?L [])"
    by (simp add: extract_cookies_from_storage_def Let_def missing_iff required_subset_iff)
  have 2: "(\<exists>cks. extract_cookies_from_storage st = Inr cks) \<longleftrightarrow>
      ''SID'' \<in> fst ` set (extract_loop ?L [])"
    by (simp add: extract_cookies_from_storage_def Let_def missing_iff required_subset_iff)
  have 3: "(\<exists>m. httpx_cookies_of st = Inl (MissingCookies m)) \<longleftrightarrow>
      ''SID'' \<notin> snd (httpx_loop ?L ([], {}))"
    by (simp add: httpx_cookies_of_def Let_def missing_iff required_subset_iff split: prod.splits)
  have 4: "(\<exists>jar. httpx_cookies_of st = Inr jar) \<longleftrightarrow>
      ''SID'' \<in> snd (httpx_loop ?L ([], {}))"
    by (simp add: httpx_cookies_of_def Let_def missing_iff required_subset_iff split: prod.splits)
  show ?thesis
    unfolding 1 2 3 4 e h by simp
qed

theorem sid_required_witness:
  "(\<exists>c\<in>set (get_cookies empty_sid_storage).
        get_or_empty (c_domain c) \<in> ALLOWED_COOKIE_DOMAINS \<and> c_name c = Some ''SID'')
   \<and> extract_cookies_from_storage empty_sid_storage = Inr [(''SID'', [])]
   \<and> \<not> (\<exists>c\<in>set (get_cookies empty_sid_storage).
        is_allowed_cookie_domain (get_or_empty (c_domain c)) \<and> c_name c = Some ''SID''
        \<and> get_or_empty (c_value c) \<noteq> [])"
  using sid_required [of empty_sid_storage] empty_sid_extract empty_sid_httpx
  by simp

text \<open>
  C9 as stated fails for the download loader: an \<^verbatim>\<open>SID\<close> cookie with the empty value
  on \<^verbatim>\<open>.google.com\<close> makes \<^verbatim>\<open>load_httpx_cookies\<close> raise the missing-cookie error.
\<close>

theorem empty_sid_fails_download_loader:
  "is_allowed_cookie_domain ''.google.com''
   \<and> httpx_cookies_of empty_sid_storage = Inl (MissingCookies {''SID''})"
  by (simp add: empty_sid_httpx allowed_domain_suffixes)

subsection \<open>Token acquisition\<close>

lemma load_auth_errors:
  "load_auth_from_storage env path \<noteq> Inl (CsrfTokenNotFound u)"
  "load_auth_from_storage env path \<noteq> Inl (SessionIdNotFound u)"
  by (auto simp: load_auth_from_storage_def extract_cookies_from_storage_def Let_def
      split: storage_file.splits)

lemma fetch_tokens_not_found:
  assumes "fetch_tokens env cks = Inl (CsrfTokenNotFound u) \<or> fetch_tokens env cks = Inl (SessionIdNotFound u)"
  shows "\<exists>response. landing_page env (cookie_header_of cks) = Inr response \<and> is_success response
        \<and> \<not> py_in ''accounts.google.com'' (r_url response)
        \<and> \<not> py_in ''accounts.google.com'' (r_text response)
        \<and> (re_search_token (quoted ''SNlM0e'') (r_text response) = None
           \<or> re_search_token (quoted ''FdrFJe'') (r_text response) = None)"
  using assms
  by (auto simp: fetch_tokens_def Let_def extract_csrf_from_html_def
      extract_session_id_from_html_def split: sum.splits if_splits option.splits)

text \<open>
  C8, as amended.  When the cookies load and the landing-page fetch returns a response
  with a 2xx status whose final URL contains \<^verbatim>\<open>accounts.google.com\<close>, acquisition fails
  with the authentication-expired error.  A response with any other status fails with
  the HTTP status error, whatever its URL.  A token-not-found error is raised only for
  a 2xx response with \<^verbatim>\<open>accounts.google.com\<close> in neither the final URL nor the body, one
  of the two patterns being absent.
\<close>

theorem acquire_login_redirect:
  "(load_auth_from_storage env path = Inr cks
      \<and> landing_page env (cookie_header_of cks) = Inr response
      \<and> is_success response \<and> py_in ''accounts.google.com'' (r_url response)
      \<longrightarrow> from_storage env path = Inl AuthenticationExpired)
   \<and> (load_auth_from_storage env path = Inr cks
      \<and> landing_page env (cookie_header_of cks) = Inr response \<and> \<not> is_success response
      \<longrightarrow> from_storage env path = Inl (HTTPStatusError (r_status_code response)))
   \<and> (from_storage env path = Inl (CsrfTokenNotFound u)
        \<or> from_storage env path = Inl (SessionIdNotFound u)
      \<longrightarrow> (\<exists>cks' response'.
            load_auth_from_storage env path = Inr cks'
            \<and> landing_page env (cookie_header_of cks') = Inr response'
            \<and> is_success response'
            \<and> \<not> py_in ''accounts.google.com'' (r_url response')
            \<and> \<not> py_in ''accounts.google.com'' (r_text response')
            \<and> (re_search_token (quoted ''SNlM0e'') (r_text response') = None
               \<or> re_search_token (quoted ''FdrFJe'') (r_text response') = None)))"
proof (intro conjI impI)
  assume "load_auth_from_storage env path = Inr cks
      \<and> landing_page env (cookie_header_of cks) = Inr response
      \<and> is_success response \<and> py_in ''accounts.google.com'' (r_url response)"
  then show "from_storage env path = Inl AuthenticationExpired"
    by (simp add: from_storage_def fetch_tokens_def)
next
  assume "load_auth_from_storage env path = Inr cks
      \<and> landing_page env (cookie_header_of cks) = Inr response \<and> \<not> is_success response"
  then show "from_storage env path = Inl (HTTPStatusError (r_status_code response))"
    by (simp add: from_storage_def fetch_tokens_def)
next
  assume a: "from_storage env path = Inl (CsrfTokenNotFound u)
        \<or> from_storage env path = Inl (SessionIdNotFound u)"
  then obtain cks' where l: "load_auth_from_storage env path = Inr cks'"
    using load_auth_errors [of env path u]
    by (cases "load_auth_from_storage env path") (auto simp: from_storage_def)
  with a have "fetch_tokens env cks' = Inl (CsrfTokenNotFound u)
        \<or> fetch_tokens env cks' = Inl (SessionIdNotFound u)"
    by (auto simp: from_storage_def split: sum.splits prod.splits)
  from fetch_tokens_not_found [OF this] l
  show "\<exists>cks' response'.
            load_auth_from_storage env path = Inr cks'
            \<and> landing_page env (cookie_header_of cks') = Inr response'
            \<and> is_success response'
            \<and> \<not> py_in ''accounts.google.com'' (r_url response')
            \<and> \<not> py_in ''accounts.google.com'' (r_text response')
            \<and> (re_search_token (quoted ''SNlM0e'') (r_text response') = None
               \<or> re_search_token (quoted ''FdrFJe'') (r_text response') = None)"
    by blast
qed

lemma login_load: "load_auth_from_storage (login_env s) None = Inr [(''SID'', ''xyz'')]"
  by (simp add: load_auth_from_storage_def login_env_def sid_storage_def
      extract_cookies_from_storage_def get_cookies_def cookie_of_def get_or_empty_def
      ALLOWED_COOKIE_DOMAINS_def MINIMUM_REQUIRED_COOKIES_def)

theorem acquire_login_redirect_witness:
  "load_auth_from_storage (login_env 200) None = Inr [(''SID'', ''xyz'')]
   \<and> landing_page (login_env 200) (cookie_header_of [(''SID'', ''xyz'')]) =
       Inr \<lparr>r_status_code = 200, r_url = ''https://accounts.google.com/v3/signin/identifier'',
            r_text = ''<html>Sign in</html>''\<rparr>
   \<and> from_storage (login_env 200) None = Inl AuthenticationExpired"
  using acquire_login_redirect [of "login_env 200" None "[(''SID'', ''xyz'')]"
      "\<lparr>r_status_code = 200, r_url = ''https://accounts.google.com/v3/signin/identifier'',
            r_text = ''<html>Sign in</html>''\<rparr>"]
    login_load [of 200]
  by (simp add: login_env_def is_success_def)

text \<open>
  C8 as stated fails: a fetch that ends on the login host with status 403 makes
  acquisition fail with the HTTP status error, since \<^verbatim>\<open>raise_for_status\<close> runs before
  the URL is looked at.
\<close>

theorem acquire_login_http_error:
  "from_storage (login_env 403) None = Inl (HTTPStatusError 403)
   \<and> py_in ''accounts.google.com'' ''https://accounts.google.com/v3/signin/identifier''"
proof -
  have "fetch_tokens (login_env 403) [(''SID'', ''xyz'')] = Inl (HTTPStatusError 403)"
    by (simp add: fetch_tokens_def login_env_def is_success_def)
  then show ?thesis
    by (simp add: from_storage_def login_load)
qed

text \<open>
  C10.  When the token pattern is absent from the HTML, each extractor raises the
  authentication-expired error whenever \<^verbatim>\<open>accounts.google.com\<close> occurs in the body,
  whatever the final URL is; and it raises its "not found" error exactly when the
  pattern is absent and the substring occurs neither in the final URL nor in the body.
\<close>

theorem token_extractors_login_substring:
  "(re_search_token (quoted ''SNlM0e'') html = None \<and> py_in ''accounts.google.com'' html
      \<longrightarrow> extract_csrf_from_html html final_url = Inl AuthenticationExpired)
   \<and> (re_search_token (quoted ''FdrFJe'') html = None \<and> py_in ''accounts.google.com'' html
      \<longrightarrow> extract_session_id_from_html html final_url = Inl AuthenticationExpired)
   \<and> ((\<exists>u. extract_csrf_from_html html final_url = Inl (CsrfTokenNotFound u))
      \<longleftrightarrow> re_search_token (quoted ''SNlM0e'') html = None
          \<and> \<not> py_in ''accounts.google.com'' final_url
          \<and> \<not> py_in ''accounts.google.com'' html)
   \<and> ((\<exists>u. extract_session_id_from_html html final_url = Inl (SessionIdNotFound u))
      \<longleftrightarrow> re_search_token (quoted ''FdrFJe'') html = None
          \<and> \<not> py_in ''accounts.google.com'' final_url
          \<and> \<not> py_in ''accounts.google.com'' html)"
  by (auto simp: extract_csrf_from_html_def extract_session_id_from_html_def
      split: option.splits)

theorem token_extractors_login_substring_witness:
  "re_search_token (quoted ''SNlM0e'') ''<a href=https://accounts.google.com/ServiceLogin>'' = None
   \<and> py_in ''accounts.google.com'' ''<a href=https://accounts.google.com/ServiceLogin>''
   \<and> \<not> py_in ''accounts.google.com'' ''https://notebooklm.google.com/''
   \<and> extract_csrf_from_html ''<a href=https://accounts.google.com/ServiceLogin>''
         ''https://notebooklm.google.com/'' = Inl AuthenticationExpired
   \<and> extract_session_id_from_html ''<a href=https://accounts.google.com/ServiceLogin>''
         ''https://notebooklm.google.com/'' = Inl AuthenticationExpired"
  using token_extractors_login_substring
    [of "''<a href=https://accounts.google.com/ServiceLogin>''" "''https://notebooklm.google.com/''"]
  by (simp add: quoted_def match_token_at_def dquote_def)

section \<open>Properties of \_sources.py\<close>

subsection \<open>The identifier extractor\<close>

text \<open>
  C3, as amended.  The extractor returns a string as it is, recurses into the first
  element of a list that is not empty, and returns none for everything else: the empty
  list, \<^verbatim>\<open>None\<close>, a number, a truth value, a mapping.  So the nested inputs of the claim
  all give \<^verbatim>\<open>id-7\<close>, and \<^verbatim>\<open>[]\<close> and \<^verbatim>\<open>None\<close> give none.
\<close>

theorem extract_id_first_string:
  "extract_id (PStr s) = Some s
   \<and> extract_id (PList (x # xs)) = extract_id x
   \<and> extract_id (PList []) = None
   \<and> extract_id PNone = None
   \<and> extract_id (PInt i) = None
   \<and> extract_id (PBool b) = None
   \<and> extract_id (PDict d) = None
   \<and> extract_id (PList [PList [PList [PList [PStr ''id-7'']]]]) = Some ''id-7''
   \<and> extract_id (PList [PList [PStr ''id-7'']]) = Some ''id-7''
   \<and> extract_id (PList [PStr ''id-7'']) = Some ''id-7''"
  by simp

text \<open>
  C3 as stated fails: a number is a scalar, and the extractor does not return it but
  none; a reply whose first scalar is a number gives none even when a string follows.
\<close>

theorem extract_id_number_counterexample:
  "extract_id (PInt 7) = None \<and> extract_id (PList [PList [PInt 7, PStr ''id-7'']]) = None"
  by simp

subsection \<open>Deleting\<close>

text \<open>
  C5, as amended.  Deleting issues exactly one remote call, \<^verbatim>\<open>DELETE_SOURCE\<close> with the
  notebook and the source, and nothing else; when that call raises, what it raised
  reaches the caller unchanged (no error of the module wraps it, and the call is not
  repeated); otherwise deleting returns, whatever the reply is.
\<close>

theorem delete_single_call:
  "snd (SourcesAPI_delete env notebook_id source_id tr) =
     tr @ [RpcCall DELETE_SOURCE (PList [PStr notebook_id, PStr source_id])
             (''/notebook/'' @ notebook_id) False]
   \<and> fst (SourcesAPI_delete env notebook_id source_id tr) =
     (case rpc_call env DELETE_SOURCE (PList [PStr notebook_id, PStr source_id])
             (''/notebook/'' @ notebook_id) False of
        Inl msg \<Rightarrow> Inl (RemoteCallError msg)
      | Inr reply \<Rightarrow> Inr ())"
  by (simp add: SourcesAPI_delete_def do_rpc_call_def notebook_path_def split: sum.splits)

text \<open>
  C5 as stated fails: when the remote call raises, the caller sees that exception, not
  an error raised by the module.
\<close>

theorem delete_propagates_remote_error:
  "SourcesAPI_delete (reply_env (Inl ''boom'')) ''nb'' ''s1'' [] =
     (Inl (RemoteCallError ''boom''),
      [RpcCall DELETE_SOURCE (PList [PStr ''nb'', PStr ''s1'']) ''/notebook/nb'' False])
   \<and> \<not> raised_by_module (RemoteCallError ''boom'')"
  by (simp add: SourcesAPI_delete_def do_rpc_call_def notebook_path_def reply_env_def)
subsection \<open>Recognising a video\<close>

lemma urlparse_error: "urlparse u = Inl e \<Longrightarrow> e = ValueError"
  by (auto simp: urlparse_def urlsplit_def Let_def split: sum.splits prod.splits if_splits)

lemma try_error: "parse_youtube_url_try url = Inl e \<Longrightarrow> e = ValueError"
  by (auto simp: parse_youtube_url_try_def Let_def dest: urlparse_error
      split: sum.splits option.splits if_splits)


lemma parse_youtube_url_eq:
  "parse_youtube_url url =
     (case parse_youtube_url_try url of Inl e \<Rightarrow> Inr None | Inr r \<Rightarrow> Inr r)"
proof (cases "parse_youtube_url_try url")
  case (Inl e)
  with try_error [of url e] show ?thesis
    by (simp add: parse_youtube_url_def)
next
  case (Inr r)
  then show ?thesis
    by (simp add: parse_youtube_url_def)
qed

lemma strip_no_trailing_space:
  "u_strip s \<noteq> [] \<Longrightarrow> \<not> u_isspace (last (u_strip s))"
proof -
  assume a: "u_strip s \<noteq> []"
  let ?xs = "dropWhile u_isspace (rev (dropWhile u_isspace s))"
  from a have ne: "?xs \<noteq> []" by (simp add: u_strip_def)
  then have "\<not> u_isspace (hd ?xs)" by (rule hd_dropWhile)
  moreover have "last (u_strip s) = hd ?xs"
    using ne by (simp add: u_strip_def last_rev)
  ultimately show ?thesis by simp
qed

lemma extracted_is_stripped:
  "extract_video_id_from_parsed_url parsed hostname = Some v \<Longrightarrow> \<exists>x. v = u_strip x"
  by (auto simp: extract_video_id_from_parsed_url_def Let_def
      split: if_splits list.splits)

lemma line_feed_is_space: "u_isspace 0x0A"
  by (simp add: u_isspace_def)

lemma valid_stripped_id:
  assumes "is_valid_video_id (u_strip x)"
  shows "list_all is_id_char (u_strip x)"
proof -
  let ?v = "u_strip x"
  from assms have ne: "?v \<noteq> []" and m: "re_match_video_id ?v"
    by (simp_all add: is_valid_video_id_def)
  from m have "dropWhile is_id_char ?v = [] \<or> dropWhile is_id_char ?v = [0x0A]"
    by (simp add: re_match_video_id_def Let_def)
  then show ?thesis
  proof
    assume "dropWhile is_id_char ?v = []"
    then show ?thesis by (simp add: dropWhile_eq_Nil_conv list_all_iff)
  next
    assume r: "dropWhile is_id_char ?v = [0x0A]"
    have "last ?v = last (takeWhile is_id_char ?v @ dropWhile is_id_char ?v)" by simp
    also have "\<dots> = 0x0A" by (simp only: r last_appendR last.simps) simp
    finally have "u_isspace (last ?v)" by (simp add: line_feed_is_space)
    with strip_no_trailing_space [OF ne] show ?thesis by simp
  qed
qed

lemma id_chars_valid:
  "v \<noteq> [] \<Longrightarrow> list_all is_id_char v \<Longrightarrow> is_valid_video_id v"
proof -
  assume ne: "v \<noteq> []" and a: "list_all is_id_char v"
  then have t: "takeWhile is_id_char v \<noteq> []"
    by (cases v) simp_all
  from a have d: "dropWhile is_id_char v = []"
    by (simp add: dropWhile_eq_Nil_conv list_all_iff)
  show ?thesis
    unfolding is_valid_video_id_def re_match_video_id_def Let_def
    using ne t d by blast
qed

lemma parsed_id_is_valid:
  assumes "parse_youtube_url url = Inr (Some v)"
  shows "v \<noteq> [] \<and> list_all is_id_char v"
proof -
  from assms have t: "parse_youtube_url_try url = Inr (Some v)"
    by (simp add: parse_youtube_url_eq split: sum.splits)
  then obtain parsed hostname where
    e: "extract_video_id_from_parsed_url parsed hostname = Some v" and
    v: "v \<noteq> []" "is_valid_video_id v"
    by (auto simp: parse_youtube_url_try_def Let_def split: sum.splits option.splits if_splits)
  from extracted_is_stripped [OF e] obtain x where "v = u_strip x" ..
  with v valid_stripped_id [of x] show ?thesis by simp
qed

lemma try_result:
  assumes "urlparse (py_strip url) = Inr parsed"
    and "py_lower (case hostname_of parsed of None \<Rightarrow> [] | Some h \<Rightarrow> h) = hostname"
  shows "parse_youtube_url url =
     (if hostname \<notin> youtube_domains then Inr None
      else (case extract_video_id_from_parsed_url parsed hostname of
              None \<Rightarrow> Inr None
            | Some video_id \<Rightarrow>
                if video_id \<noteq> [] \<and> list_all is_id_char video_id
                then Inr (Some video_id) else Inr None))"
proof -
  have v: "extract_video_id_from_parsed_url parsed hostname = Some w \<Longrightarrow>
      (w \<noteq> [] \<and> is_valid_video_id w) = (w \<noteq> [] \<and> list_all is_id_char w)" for w
    using extracted_is_stripped [of parsed hostname w] valid_stripped_id id_chars_valid
    by blast
  show ?thesis
    using assms v
    by (auto simp: parse_youtube_url_eq parse_youtube_url_try_def Let_def split: option.splits)
qed





lemma add_video:
  assumes "is_existing_file env url = Inr False" and "parse_youtube_url url = Inr (Some v)"
  shows "SourcesAPI_add env notebook_id url tr =
     (case add_youtube_source env notebook_id url tr of
        (Inl e, tr') \<Rightarrow> (Inl e, tr')
      | (Inr result, tr') \<Rightarrow> (Inr ''youtube_source_added'', tr'))"
  using assms parsed_id_is_valid [of url v]
  by (simp add: SourcesAPI_add_def)

lemma reply_env_no_file: "is_existing_file (reply_env outcome) p = Inr False"
  by (simp add: is_existing_file_def path_exists_def path_stat_def reply_env_def
      ignore_error_def)









lemma host_rule_shared:
  assumes "h \<noteq> ''youtu.be''" and "h' \<noteq> ''youtu.be''"
    and "u_path parsed = u_path parsed'" and "u_query parsed = u_query parsed'"
  shows "extract_video_id_from_parsed_url parsed h = extract_video_id_from_parsed_url parsed' h'"
  unfolding extract_video_id_from_parsed_url_def assms(3) assms(4)
  using assms(1) assms(2) by simp

lemma same_path_same_result:
  assumes p: "urlparse (py_strip url) = Inr parsed"
    and p': "urlparse (py_strip url') = Inr parsed'"
    and h: "py_lower (case hostname_of parsed of None \<Rightarrow> [] | Some x \<Rightarrow> x) = h"
    and h': "py_lower (case hostname_of parsed' of None \<Rightarrow> [] | Some x \<Rightarrow> x) = h'"
    and d: "h \<in> youtube_domains" "h' \<in> youtube_domains"
    and n: "h \<noteq> ''youtu.be''" "h' \<noteq> ''youtu.be''"
    and e: "u_path parsed = u_path parsed'" "u_query parsed = u_query parsed'"
  shows "parse_youtube_url url = parse_youtube_url url'"
  unfolding try_result [OF p h] try_result [OF p' h'] host_rule_shared [OF n e]
  using d by simp

lemma youtube_call_eval:
  "add_youtube_source (reply_env outcome) notebook_id url tr =
     ((case outcome of Inl msg \<Rightarrow> Inl (RemoteCallError msg) | Inr reply \<Rightarrow> Inr reply),
      tr @ [video_call notebook_id url])"
  by (simp add: add_youtube_source_def do_rpc_call_def reply_env_def video_call_def
      tail_params_def notebook_path_def eval_nat_numeral)

lemma mobile_shorts_parsed:
  "urlparse (py_strip ''https://m.youtube.com/shorts/abc123'') =
     Inr \<lparr>u_scheme = ''https'', u_netloc = ''m.youtube.com'', u_path = ''/shorts/abc123'',
          u_params = [], u_query = [], u_fragment = []\<rparr>"
  by code_simp

lemma canonical_shorts_parsed:
  "urlparse (py_strip ''https://www.youtube.com/shorts/abc123'') =
     Inr \<lparr>u_scheme = ''https'', u_netloc = ''www.youtube.com'', u_path = ''/shorts/abc123'',
          u_params = [], u_query = [], u_fragment = []\<rparr>"
  by code_simp

lemma mobile_shorts_host:
  "py_lower (case hostname_of \<lparr>u_scheme = ''https'', u_netloc = ''m.youtube.com'',
        u_path = ''/shorts/abc123'', u_params = [], u_query = [], u_fragment = []\<rparr> of
      None \<Rightarrow> [] | Some h \<Rightarrow> h) = ''m.youtube.com''"
  by code_simp

lemma canonical_shorts_host:
  "py_lower (case hostname_of \<lparr>u_scheme = ''https'', u_netloc = ''www.youtube.com'',
        u_path = ''/shorts/abc123'', u_params = [], u_query = [], u_fragment = []\<rparr> of
      None \<Rightarrow> [] | Some h \<Rightarrow> h) = ''www.youtube.com''"
  by code_simp

text \<open>
  C6.  The four URLs of the claim give the identifier \<^verbatim>\<open>abc123\<close>, as the same watch URL
  does on the canonical hosts.  Two URLs whose hosts are video hosts other than
  \<^verbatim>\<open>youtu.be\<close> and whose paths and queries are the same are recognised alike, with the same
  identifier or not at all: the mobile and music hosts are treated as the canonical
  ones.  When one of the four URLs names no existing file, \<^verbatim>\<open>add\<close> takes the video branch.
\<close>

theorem video_url_examples:
  "parse_youtube_url ''https://m.youtube.com/watch?v=abc123'' = Inr (Some (ustr ''abc123''))
   \<and> parse_youtube_url ''https://youtu.be/abc123'' = Inr (Some (ustr ''abc123''))
   \<and> parse_youtube_url ''https://www.youtube.com/shorts/abc123'' = Inr (Some (ustr ''abc123''))
   \<and> parse_youtube_url ''https://music.youtube.com/watch?v=abc123'' = Inr (Some (ustr ''abc123''))
   \<and> parse_youtube_url ''https://www.youtube.com/watch?v=abc123'' = Inr (Some (ustr ''abc123''))
   \<and> parse_youtube_url ''https://youtube.com/watch?v=abc123'' = Inr (Some (ustr ''abc123''))
   \<and> (urlparse (py_strip url) = Inr parsed \<and> urlparse (py_strip url') = Inr parsed'
        \<and> py_lower (case hostname_of parsed of None \<Rightarrow> [] | Some x \<Rightarrow> x) = h
        \<and> py_lower (case hostname_of parsed' of None \<Rightarrow> [] | Some x \<Rightarrow> x) = h'
        \<and> h \<in> youtube_domains \<and> h' \<in> youtube_domains
        \<and> h \<noteq> ''youtu.be'' \<and> h' \<noteq> ''youtu.be''
        \<and> u_path parsed = u_path parsed' \<and> u_query parsed = u_query parsed'
      \<longrightarrow> parse_youtube_url url = parse_youtube_url url')
   \<and> (source \<in> {''https://m.youtube.com/watch?v=abc123'', ''https://youtu.be/abc123'',
                  ''https://www.youtube.com/shorts/abc123'',
                  ''https://music.youtube.com/watch?v=abc123''}
        \<and> is_existing_file env source = Inr False
      \<longrightarrow> SourcesAPI_add env notebook_id source tr =
          (case add_youtube_source env notebook_id source tr of
             (Inl e, tr') \<Rightarrow> (Inl e, tr')
           | (Inr result, tr') \<Rightarrow> (Inr ''youtube_source_added'', tr')))"
proof -
  have 1: "parse_youtube_url ''https://m.youtube.com/watch?v=abc123'' =
      Inr (Some (ustr ''abc123''))"
    by code_simp
  have 2: "parse_youtube_url ''https://youtu.be/abc123'' = Inr (Some (ustr ''abc123''))"
    by code_simp
  have 3: "parse_youtube_url ''https://www.youtube.com/shorts/abc123'' =
      Inr (Some (ustr ''abc123''))"
    by code_simp
  have 4: "parse_youtube_url ''https://music.youtube.com/watch?v=abc123'' =
      Inr (Some (ustr ''abc123''))"
    by code_simp
  have 5: "parse_youtube_url ''https://www.youtube.com/watch?v=abc123'' =
      Inr (Some (ustr ''abc123''))"
    by code_simp
  have 6: "parse_youtube_url ''https://youtube.com/watch?v=abc123'' =
      Inr (Some (ustr ''abc123''))"
    by code_simp
  have 7: "urlparse (py_strip url) = Inr parsed \<and> urlparse (py_strip url') = Inr parsed'
        \<and> py_lower (case hostname_of parsed of None \<Rightarrow> [] | Some x \<Rightarrow> x) = h
        \<and> py_lower (case hostname_of parsed' of None \<Rightarrow> [] | Some x \<Rightarrow> x) = h'
        \<and> h \<in> youtube_domains \<and> h' \<in> youtube_domains
        \<and> h \<noteq> ''youtu.be'' \<and> h' \<noteq> ''youtu.be''
        \<and> u_path parsed = u_path parsed' \<and> u_query parsed = u_query parsed'
      \<longrightarrow> parse_youtube_url url = parse_youtube_url url'"
    using same_path_same_result [of url parsed url' parsed' h h'] by blast
  have 8: "source \<in> {''https://m.youtube.com/watch?v=abc123'', ''https://youtu.be/abc123'',
                  ''https://www.youtube.com/shorts/abc123'',
                  ''https://music.youtube.com/watch?v=abc123''}
        \<and> is_existing_file env source = Inr False
      \<longrightarrow> SourcesAPI_add env notebook_id source tr =
          (case add_youtube_source env notebook_id source tr of
             (Inl e, tr') \<Rightarrow> (Inl e, tr')
           | (Inr result, tr') \<Rightarrow> (Inr ''youtube_source_added'', tr'))"
  proof (intro impI, elim conjE)
    assume m: "source \<in> {''https://m.youtube.com/watch?v=abc123'', ''https://youtu.be/abc123'',
                  ''https://www.youtube.com/shorts/abc123'',
                  ''https://music.youtube.com/watch?v=abc123''}"
      and nf: "is_existing_file env source = Inr False"
    from m 1 2 3 4 have "parse_youtube_url source = Inr (Some (ustr ''abc123''))"
      by auto
    from add_video [OF nf this]
    show "SourcesAPI_add env notebook_id source tr =
          (case add_youtube_source env notebook_id source tr of
             (Inl e, tr') \<Rightarrow> (Inl e, tr')
           | (Inr result, tr') \<Rightarrow> (Inr ''youtube_source_added'', tr'))" .
  qed
  show ?thesis
    using 1 2 3 4 5 6 7 8 by (intro conjI)
qed

theorem video_url_examples_witness:
  "parse_youtube_url ''https://m.youtube.com/shorts/abc123'' = Inr (Some (ustr ''abc123''))
   \<and> ''https://youtu.be/abc123'' \<in>
       {''https://m.youtube.com/watch?v=abc123'', ''https://youtu.be/abc123'',
        ''https://www.youtube.com/shorts/abc123'', ''https://music.youtube.com/watch?v=abc123''}
   \<and> is_existing_file (reply_env (Inr (PList [PStr ''x'']))) ''https://youtu.be/abc123'' =
       Inr False
   \<and> SourcesAPI_add (reply_env (Inr (PList [PStr ''x'']))) ''nb'' ''https://youtu.be/abc123'' [] =
       (Inr ''youtube_source_added'', [video_call ''nb'' ''https://youtu.be/abc123''])"
proof -
  note t = video_url_examples
    [of "''https://m.youtube.com/shorts/abc123''"
      "\<lparr>u_scheme = ''https'', u_netloc = ''m.youtube.com'', u_path = ''/shorts/abc123'',
          u_params = [], u_query = [], u_fragment = []\<rparr>"
      "''https://www.youtube.com/shorts/abc123''"
      "\<lparr>u_scheme = ''https'', u_netloc = ''www.youtube.com'', u_path = ''/shorts/abc123'',
          u_params = [], u_query = [], u_fragment = []\<rparr>"
      "''m.youtube.com''" "''www.youtube.com''"
      "''https://youtu.be/abc123''" "reply_env (Inr (PList [PStr ''x'']))" "''nb''" "[]"]
  have d: "''m.youtube.com'' \<in> youtube_domains" "''www.youtube.com'' \<in> youtube_domains"
    "''m.youtube.com'' \<noteq> ''youtu.be''" "''www.youtube.com'' \<noteq> ''youtu.be''"
    by (simp_all add: youtube_domains_def)
  from t mobile_shorts_parsed canonical_shorts_parsed mobile_shorts_host canonical_shorts_host d
  have "parse_youtube_url ''https://m.youtube.com/shorts/abc123'' =
      parse_youtube_url ''https://www.youtube.com/shorts/abc123''"
    by simp
  with t have a: "parse_youtube_url ''https://m.youtube.com/shorts/abc123'' =
      Inr (Some (ustr ''abc123''))"
    by simp
  note f = reply_env_no_file [of "Inr (PList [PStr ''x''])" "''https://youtu.be/abc123''"]
  from t f have "SourcesAPI_add (reply_env (Inr (PList [PStr ''x'']))) ''nb''
        ''https://youtu.be/abc123'' [] =
      (case add_youtube_source (reply_env (Inr (PList [PStr ''x'']))) ''nb''
              ''https://youtu.be/abc123'' [] of
         (Inl e, tr') \<Rightarrow> (Inl e, tr')
       | (Inr result, tr') \<Rightarrow> (Inr ''youtube_source_added'', tr'))"
    by simp
  then have b: "SourcesAPI_add (reply_env (Inr (PList [PStr ''x'']))) ''nb''
        ''https://youtu.be/abc123'' [] =
      (Inr ''youtube_source_added'', [video_call ''nb'' ''https://youtu.be/abc123''])"
    by (simp add: youtube_call_eval)
  show ?thesis
    using a f b by simp
qed

subsection \<open>Adding a local file\<close>

lemma register_trace:
  assumes "register_file_source env notebook_id filename tr = (r, tr')"
  shows "tr' = tr @ [RpcCall ADD_SOURCE_FILE
                (PList [PList [PList [PStr filename]], PStr notebook_id, PList [PInt 2], tail_params])
                (notebook_path notebook_id) True]
    \<and> (\<forall>source_id. r = Inr source_id \<longrightarrow>
          (\<exists>reply. rpc_call env ADD_SOURCE_FILE
                (PList [PList [PList [PStr filename]], PStr notebook_id, PList [PInt 2], tail_params])
                (notebook_path notebook_id) True = Inr reply
             \<and> extract_id reply = Some source_id \<and> source_id \<noteq> []))"
  using assms
  by (auto simp: register_file_source_def do_rpc_call_def
      split: sum.splits option.splits if_splits)

lemma start_trace:
  assumes "start_resumable_upload env notebook_id filename file_size source_id tr = (r, tr')"
  shows "\<exists>headers fields.
      tr' = tr @ [HttpPost (UPLOAD_URL @ ''?authuser=0'') headers (JsonBody fields)]
    \<and> map_of headers ''x-goog-upload-command'' = Some ''start''
    \<and> map_of headers ''x-goog-upload-header-content-length'' = Some (str_of_nat file_size)
    \<and> map_of fields ''SOURCE_ID'' = Some source_id"
  using assms
  by (auto simp: start_resumable_upload_def do_post_def Let_def
      split: sum.splits option.splits if_splits)

lemma upload_trace:
  assumes "fs env file_path = Inr (RegularFile f)"
    and "upload_file_streaming env upload_url file_path tr = (r, tr')"
  shows "\<exists>headers.
      tr' = tr @ [HttpPost upload_url headers (StreamBody (file_stream 65536 f))]
    \<and> map_of headers ''x-goog-upload-command'' = Some ''upload, finalize''"
  using assms
  by (auto simp: upload_file_streaming_def do_post_def Let_def
      split: sum.splits option.splits if_splits)


lemma regular_file_exists:
  assumes "CHR 0x00 \<notin> set p" and "fs env p = Inr (RegularFile f)"
  shows "is_existing_file env p = Inr True"
    and "path_exists env p = Inr True"
    and "path_stat env p = Inr (RegularFile f)"
  using assms
  by (simp_all add: is_existing_file_def path_exists_def path_is_file_def path_stat_def)

lemma add_file_unfold:
  assumes "CHR 0x00 \<notin> set p" and "fs env p = Inr (RegularFile f)"
  shows "SourcesAPI_add env notebook_id p tr =
     (case register_file_source env notebook_id (path_name p) tr of
        (Inl e, tr1) \<Rightarrow> (Inl e, tr1)
      | (Inr source_id, tr1) \<Rightarrow>
          (case start_resumable_upload env notebook_id (path_name p) (length f) source_id tr1 of
             (Inl e, tr2) \<Rightarrow> (Inl e, tr2)
           | (Inr upload_url, tr2) \<Rightarrow>
               (case upload_file_streaming env upload_url p tr2 of
                  (Inl e, tr3) \<Rightarrow> (Inl e, tr3)
                | (Inr u, tr3) \<Rightarrow> (Inr source_id, tr3))))"
  by (simp add: SourcesAPI_add_def add_file_source_def regular_file_exists [OF assms]
      st_size_def Let_def)

lemma add_file_trace:
  assumes z: "CHR 0x00 \<notin> set p"
    and f: "fs env p = Inr (RegularFile f)"
    and out: "SourcesAPI_add env notebook_id p tr = (r, tr')"
  shows "\<exists>evs. tr' = tr @ evs
      \<and> map phase_of evs \<in>
          {[Register], [Register, Negotiate], [Register, Negotiate, Transfer]}
      \<and> (\<forall>source_id. r = Inr source_id \<longrightarrow>
            (\<exists>reply headers1 fields upload_url headers2.
               evs = [RpcCall ADD_SOURCE_FILE
                        (PList [PList [PList [PStr (path_name p)]], PStr notebook_id,
                                PList [PInt 2], tail_params])
                        (notebook_path notebook_id) True,
                      HttpPost (UPLOAD_URL @ ''?authuser=0'') headers1 (JsonBody fields),
                      HttpPost upload_url headers2 (StreamBody (file_stream 65536 f))]
               \<and> rpc_call env ADD_SOURCE_FILE
                        (PList [PList [PList [PStr (path_name p)]], PStr notebook_id,
                                PList [PInt 2], tail_params])
                        (notebook_path notebook_id) True = Inr reply
               \<and> extract_id reply = Some source_id
               \<and> map_of fields ''SOURCE_ID'' = Some source_id
               \<and> map_of headers1 ''x-goog-upload-header-content-length'' =
                   Some (str_of_nat (length f))))"
proof -
  define params where "params =
    PList [PList [PList [PStr (path_name p)]], PStr notebook_id, PList [PInt 2], tail_params]"
  define reg where "reg = RpcCall ADD_SOURCE_FILE params (notebook_path notebook_id) True"
  define neg_url where "neg_url = UPLOAD_URL @ ''?authuser=0''"
  define chunks where "chunks = file_stream 65536 f"
  define len_key where "len_key = ''x-goog-upload-header-content-length''"
  define size_str where "size_str = str_of_nat (length f)"
  have phr: "phase_of reg = Register"
    by (simp add: reg_def)
  note u = add_file_unfold [OF z f, of notebook_id tr]
  obtain r1 tr1 where r1: "register_file_source env notebook_id (path_name p) tr = (r1, tr1)"
    by (cases "register_file_source env notebook_id (path_name p) tr")
  from register_trace [OF r1] have t1: "tr1 = tr @ [reg]"
    and s1: "\<And>source_id. r1 = Inr source_id \<Longrightarrow>
          \<exists>reply. rpc_call env ADD_SOURCE_FILE params (notebook_path notebook_id) True = Inr reply
             \<and> extract_id reply = Some source_id"
    unfolding reg_def params_def by blast+
  have goal: "\<exists>evs. tr' = tr @ evs
      \<and> map phase_of evs \<in>
          {[Register], [Register, Negotiate], [Register, Negotiate, Transfer]}
      \<and> (\<forall>source_id. r = Inr source_id \<longrightarrow>
            (\<exists>reply headers1 fields upload_url headers2.
               evs = [reg, HttpPost neg_url headers1 (JsonBody fields),
                      HttpPost upload_url headers2 (StreamBody chunks)]
               \<and> rpc_call env ADD_SOURCE_FILE params (notebook_path notebook_id) True = Inr reply
               \<and> extract_id reply = Some source_id
               \<and> map_of fields ''SOURCE_ID'' = Some source_id
               \<and> map_of headers1 len_key = Some size_str))"
  proof (cases r1)
    case (Inl e)
    with out u r1 have "tr' = tr1" and "r = Inl e"
      by simp_all
    with t1 phr show ?thesis
      by (intro exI [of _ "[reg]"]) simp
  next
    case sid: (Inr sid)
    obtain r2 tr2 where r2:
      "start_resumable_upload env notebook_id (path_name p) (length f) sid tr1 = (r2, tr2)"
      by (cases "start_resumable_upload env notebook_id (path_name p) (length f) sid tr1")
    from start_trace [OF r2] obtain headers1 fields where
      t2: "tr2 = tr1 @ [HttpPost neg_url headers1 (JsonBody fields)]"
      and c2: "map_of headers1 ''x-goog-upload-command'' = Some ''start''"
      and l2: "map_of headers1 len_key = Some size_str"
      and i2: "map_of fields ''SOURCE_ID'' = Some sid"
      unfolding neg_url_def len_key_def size_str_def by blast
    define neg where "neg = HttpPost neg_url headers1 (JsonBody fields)"
    have phn: "phase_of neg = Negotiate"
      using c2 by (simp add: neg_def)
    show ?thesis
    proof (cases r2)
      case (Inl e)
      with out u r1 r2 sid have "tr' = tr2" and "r = Inl e"
        by simp_all
      with t1 t2 phr phn show ?thesis
        unfolding neg_def [symmetric]
        by (intro exI [of _ "[reg, neg]"]) simp
    next
      case url: (Inr upload_url)
      obtain r3 tr3 where r3: "upload_file_streaming env upload_url p tr2 = (r3, tr3)"
        by (cases "upload_file_streaming env upload_url p tr2")
      from upload_trace [OF f r3] obtain headers2 where
        t3: "tr3 = tr2 @ [HttpPost upload_url headers2 (StreamBody chunks)]"
        and c3: "map_of headers2 ''x-goog-upload-command'' = Some ''upload, finalize''"
        unfolding chunks_def by blast
      define tra where "tra = HttpPost upload_url headers2 (StreamBody chunks)"
      have pht: "phase_of tra = Transfer"
        using c3 by (simp add: tra_def)
      from out u r1 r2 r3 sid url
      have o: "tr' = tr3" "r = (case r3 of Inl e \<Rightarrow> Inl e | Inr u \<Rightarrow> Inr sid)"
        by (simp_all split: sum.splits)
      from s1 [OF sid] obtain reply where
        rp: "rpc_call env ADD_SOURCE_FILE params (notebook_path notebook_id) True = Inr reply"
        and ei: "extract_id reply = Some sid"
        by blast
      have evs: "tr' = tr @ [reg, neg, tra]"
        using o t1 t2 t3 by (simp add: neg_def tra_def)
      have ph: "map phase_of [reg, neg, tra] = [Register, Negotiate, Transfer]"
        using phr phn pht by simp
      have same: "r = Inr source_id \<Longrightarrow> source_id = sid" for source_id
        using o by (cases r3) simp_all
      have det: "\<forall>source_id. r = Inr source_id \<longrightarrow>
            (\<exists>reply headers1 fields upload_url headers2.
               [reg, neg, tra] = [reg, HttpPost neg_url headers1 (JsonBody fields),
                      HttpPost upload_url headers2 (StreamBody chunks)]
               \<and> rpc_call env ADD_SOURCE_FILE params (notebook_path notebook_id) True = Inr reply
               \<and> extract_id reply = Some source_id
               \<and> map_of fields ''SOURCE_ID'' = Some source_id
               \<and> map_of headers1 len_key = Some size_str)"
      proof (intro allI impI)
        fix source_id assume "r = Inr source_id"
        then have e: "source_id = sid" by (rule same)
        show "\<exists>reply headers1 fields upload_url headers2.
               [reg, neg, tra] = [reg, HttpPost neg_url headers1 (JsonBody fields),
                      HttpPost upload_url headers2 (StreamBody chunks)]
               \<and> rpc_call env ADD_SOURCE_FILE params (notebook_path notebook_id) True = Inr reply
               \<and> extract_id reply = Some source_id
               \<and> map_of fields ''SOURCE_ID'' = Some source_id
               \<and> map_of headers1 len_key = Some size_str"
          unfolding e
          using rp ei i2 l2
          by (intro exI [of _ reply] exI [of _ headers1] exI [of _ fields]
              exI [of _ upload_url] exI [of _ headers2]) (simp add: neg_def tra_def)
      qed
      show ?thesis
        using evs ph det
        by (intro exI [of _ "[reg, neg, tra]"]) simp
    qed
  qed
  then show ?thesis
    unfolding reg_def params_def neg_url_def chunks_def len_key_def size_str_def .
qed

lemma concat_file_stream: "0 < n \<Longrightarrow> concat (file_stream n f) = f"
proof (induction n f rule: file_stream.induct)
  case (1 n f)
  show ?case
  proof (cases "take n f = []")
    case True
    with "1.prems" have "f = []" by (cases f) auto
    then show ?thesis by (simp add: file_stream.simps)
  next
    case False
    then have "concat (file_stream n f) = take n f @ concat (file_stream n (drop n f))"
      by (subst file_stream.simps) (simp add: Let_def)
    also have "\<dots> = take n f @ drop n f"
      using "1.IH" [OF refl False] "1.prems" by simp
    finally show ?thesis by simp
  qed
qed

lemma file_stream_chunks: "c \<in> set (file_stream n f) \<Longrightarrow> c \<noteq> [] \<and> length c \<le> n"
proof (induction n f rule: file_stream.induct)
  case (1 n f)
  show ?case
  proof (cases "take n f = []")
    case True
    with "1.prems" show ?thesis by (simp add: file_stream.simps)
  next
    case False
    with "1.prems" have "c = take n f \<or> c \<in> set (file_stream n (drop n f))"
      by (subst (asm) file_stream.simps) (simp add: Let_def)
    then show ?thesis
      using "1.IH" [OF refl False] False by auto
  qed
qed

lemma upload_env_file:
  "CHR 0x00 \<notin> set ''docs/a.txt''"
  "fs upload_env ''docs/a.txt'' = Inr (RegularFile [1, 2, 3, 4, 5])"
  by (simp_all add: upload_env_def)

lemma upload_env_result:
  "fst (SourcesAPI_add upload_env ''nb'' ''docs/a.txt'' []) = Inr ''src-1''"
  unfolding add_file_unfold [OF upload_env_file]
  by (simp add: register_file_source_def do_rpc_call_def upload_env_def
      start_resumable_upload_def do_post_def raise_for_status_def
      upload_file_streaming_def Let_def)

lemma small_chunks: "file_stream 2 [1, 2, 3, 4, 5 :: byte] = [[1, 2], [3, 4], [5]]"
  by (simp add: file_stream.simps)

text \<open>
  C2.  Adding an existing regular file of content \<^verbatim>\<open>f\<close> records, after what was recorded
  before, the registration call alone, or the registration and the negotiation, or the
  registration, the negotiation and the transfer, in this order: no call is repeated, and
  a phase that fails ends the operation.  When the operation returns an identifier, all
  three calls were made, once each; the body of the transfer is the file read in chunks
  of 65536 bytes, none of them empty, whose concatenation is the file, so that their
  sizes add up to the size of the file, which is also the size announced in the
  negotiation; and the identifier returned is the one that the extractor finds in the
  reply of the registration, the one sent in the negotiation.  Reading in chunks of any
  other positive size gives the same content.
\<close>

theorem add_file_three_calls:
  assumes "CHR 0x00 \<notin> set p" and "fs env p = Inr (RegularFile f)"
  shows "(\<exists>evs. snd (SourcesAPI_add env notebook_id p tr) = tr @ evs
      \<and> map phase_of evs \<in>
          {[Register], [Register, Negotiate], [Register, Negotiate, Transfer]}
      \<and> (\<forall>source_id. fst (SourcesAPI_add env notebook_id p tr) = Inr source_id \<longrightarrow>
            (\<exists>reply headers1 fields upload_url headers2.
               evs = [RpcCall ADD_SOURCE_FILE
                        (PList [PList [PList [PStr (path_name p)]], PStr notebook_id,
                                PList [PInt 2], tail_params])
                        (notebook_path notebook_id) True,
                      HttpPost (UPLOAD_URL @ ''?authuser=0'') headers1 (JsonBody fields),
                      HttpPost upload_url headers2 (StreamBody (file_stream 65536 f))]
               \<and> rpc_call env ADD_SOURCE_FILE
                        (PList [PList [PList [PStr (path_name p)]], PStr notebook_id,
                                PList [PInt 2], tail_params])
                        (notebook_path notebook_id) True = Inr reply
               \<and> extract_id reply = Some source_id
               \<and> map_of fields ''SOURCE_ID'' = Some source_id
               \<and> map_of headers1 ''x-goog-upload-header-content-length'' =
                   Some (str_of_nat (length f)))))
    \<and> concat (file_stream 65536 f) = f
    \<and> length (concat (file_stream 65536 f)) = length f
    \<and> (\<forall>c \<in> set (file_stream 65536 f). c \<noteq> [] \<and> length c \<le> 65536)
    \<and> (\<forall>n. 0 < n \<longrightarrow> concat (file_stream n f) = f)"
proof -
  obtain r tr' where out: "SourcesAPI_add env notebook_id p tr = (r, tr')"
    by (cases "SourcesAPI_add env notebook_id p tr")
  have c: "concat (file_stream n f) = f" if "0 < n" for n
    using that by (rule concat_file_stream)
  have k: "\<forall>c \<in> set (file_stream 65536 f). c \<noteq> [] \<and> length c \<le> 65536"
    using file_stream_chunks by blast
  from add_file_trace [OF assms out] c [of 65536] k c show ?thesis
    unfolding out fst_conv snd_conv by simp
qed

theorem add_file_three_calls_witness:
  "CHR 0x00 \<notin> set ''docs/a.txt''
   \<and> fs upload_env ''docs/a.txt'' = Inr (RegularFile [1, 2, 3, 4, 5])
   \<and> fst (SourcesAPI_add upload_env ''nb'' ''docs/a.txt'' []) = Inr ''src-1''
   \<and> map phase_of (snd (SourcesAPI_add upload_env ''nb'' ''docs/a.txt'' [])) =
       [Register, Negotiate, Transfer]
   \<and> concat [[1, 2], [3, 4], [5 :: byte]] = [1, 2, 3, 4, 5]"
proof -
  define out where "out = SourcesAPI_add upload_env ''nb'' ''docs/a.txt'' []"
  note t = add_file_three_calls [OF upload_env_file, of "''nb''" "[]", folded out_def]
  note r = upload_env_result [folded out_def]
  from t [THEN conjunct1] obtain evs where
    e: "snd out = [] @ evs
      \<and> map phase_of evs \<in>
          {[Register], [Register, Negotiate], [Register, Negotiate, Transfer]}
      \<and> (\<forall>source_id. fst out = Inr source_id \<longrightarrow>
            (\<exists>reply headers1 fields upload_url headers2.
               evs = [RpcCall ADD_SOURCE_FILE
                        (PList [PList [PList [PStr (path_name ''docs/a.txt'')]], PStr ''nb'',
                                PList [PInt 2], tail_params])
                        (notebook_path ''nb'') True,
                      HttpPost (UPLOAD_URL @ ''?authuser=0'') headers1 (JsonBody fields),
                      HttpPost upload_url headers2
                        (StreamBody (file_stream 65536 [1, 2, 3, 4, 5]))]
               \<and> rpc_call upload_env ADD_SOURCE_FILE
                        (PList [PList [PList [PStr (path_name ''docs/a.txt'')]], PStr ''nb'',
                                PList [PInt 2], tail_params])
                        (notebook_path ''nb'') True = Inr reply
               \<and> extract_id reply = Some source_id
               \<and> map_of fields ''SOURCE_ID'' = Some source_id
               \<and> map_of headers1 ''x-goog-upload-header-content-length'' =
                   Some (str_of_nat (length [1, 2, 3, 4, 5 :: byte]))))" ..
  from e have s: "snd out = evs"
    by simp
  from e have ph: "map phase_of evs \<in>
          {[Register], [Register, Negotiate], [Register, Negotiate, Transfer]}"
    by (elim conjE)
  from e r have "\<exists>a b c. evs = [a, b, c]"
    by (elim conjE allE [of _ "''src-1''"] impE) (assumption, (elim exE conjE), blast)
  then have "length (map phase_of evs) = 3"
    by auto
  with ph have p: "map phase_of evs = [Register, Negotiate, Transfer]"
    by auto
  from t have c: "concat (file_stream 2 [1, 2, 3, 4, 5 :: byte]) = [1, 2, 3, 4, 5]"
    by simp
  show ?thesis
    using upload_env_file r p c
    unfolding s [symmetric] out_def small_chunks by (intro conjI)
qed

subsection \<open>Adding a URL or a video\<close>







end
